theory Spec2Isabelle
  imports Main "HOL-Library.Sublist"
begin

section \<open>Strings\<close>

text \<open>
  JavaScript strings are modelled as \<^typ>\<open>string\<close>: a character is a code point below 256
  (Basic Latin and the Latin-1 Supplement). There \<open>toLowerCase\<close> folds the letters A to Z and
  the capital letters from U+00C0 to U+00DE (all but the multiplication sign U+00D7) to the
  letter 32 places on, and leaves every other character alone.
\<close>

definition toLower :: "char \<Rightarrow> char" where
  "toLower c =
     (let n = (of_char c :: nat) in
      if (65 \<le> n \<and> n \<le> 90) \<or> (192 \<le> n \<and> n \<le> 222 \<and> n \<noteq> 215) then char_of (n + 32) else c)"

definition toLowerCase :: "string \<Rightarrow> string" where
  "toLowerCase s = map toLower s"

text \<open>\<open>String.prototype.includes\<close>: the second string occurs as a contiguous part of the first.\<close>

fun includesStr :: "string \<Rightarrow> string \<Rightarrow> bool" where
  "includesStr [] sub = (sub = [])"
| "includesStr (c # cs) sub = (prefix sub (c # cs) \<or> includesStr cs sub)"

text \<open>
  \<open>String.prototype.trim\<close> removes white space and line terminators at both ends. Below 256
  these are tab, line feed, vertical tab, form feed, carriage return, space and the no-break
  space U+00A0.
\<close>

definition isSpace :: "char \<Rightarrow> bool" where
  "isSpace c = ((of_char c :: nat) \<in> {9, 10, 11, 12, 13, 32, 160})"

definition trim :: "string \<Rightarrow> string" where
  "trim s = rev (dropWhile isSpace (rev (dropWhile isSpace s)))"

text \<open>
  The store's \<open>Op.iLike\<close> is the case-insensitive \<open>LIKE\<close> of the database (PostgreSQL): in
  the pattern, \<open>%\<close> stands for any run of characters, \<open>_\<close> for any one character, and a
  backslash makes the next character literal. The pattern comes first, the stored text
  second; both are taken in lower case. The matcher goes through pattern and text from the
  left. When it comes to a backslash that ends the pattern while text is left, the database
  raises \<open>LIKE pattern must not end with escape character\<close>, and the query fails.
\<close>

datatype LikeResult = LikeTrue | LikeFalse | LikeError

fun like_match :: "string \<Rightarrow> string \<Rightarrow> LikeResult" where
  "like_match [] t = (if t = [] then LikeTrue else LikeFalse)"
| "like_match (p # ps) t =
     (if p = CHR ''%'' then
        (case like_match ps t of
           LikeTrue \<Rightarrow> LikeTrue
         | LikeError \<Rightarrow> LikeError
         | LikeFalse \<Rightarrow> (case t of [] \<Rightarrow> LikeFalse | c # ts \<Rightarrow> like_match (p # ps) ts))
      else if p = CHR ''_'' then
        (case t of [] \<Rightarrow> LikeFalse | c # ts \<Rightarrow> like_match ps ts)
      else if p = CHR 0x5C then
        (case t of [] \<Rightarrow> LikeFalse
         | c # ts \<Rightarrow> (case ps of [] \<Rightarrow> LikeError
                     | q # qs \<Rightarrow> if c = q then like_match qs ts else LikeFalse))
      else
        (case t of [] \<Rightarrow> LikeFalse | c # ts \<Rightarrow> if c = p then like_match ps ts else LikeFalse))"

definition iLike :: "string \<Rightarrow> string \<Rightarrow> LikeResult" where
  "iLike pattern text = like_match (toLowerCase pattern) (toLowerCase text)"

definition likeErrorMessage :: string where
  "likeErrorMessage = ''LIKE pattern must not end with escape character''"

text \<open>JavaScript truthiness of a string and of an optional string.\<close>

definition truthy :: "string \<Rightarrow> bool" where
  "truthy s = (s \<noteq> [])"

definition truthyOpt :: "string option \<Rightarrow> bool" where
  "truthyOpt s = (case s of None \<Rightarrow> False | Some v \<Rightarrow> v \<noteq> [])"


section \<open>The directory store\<close>

text \<open>
  The models \<open>Team\<close>, \<open>User\<close>, \<open>UserAuthentication\<close>, \<open>AuthenticationProvider\<close>, \<open>Group\<close> and
  \<open>GroupUser\<close> are tables of rows; a table is the list of its rows in the order a query
  without \<open>ORDER BY\<close> returns them. Only the columns that \<open>userSyncer\<close> and the sync task read
  or write are kept. Identifiers are UUID strings, a timestamp is a number. The one
  store call that fails here is a query whose \<open>iLike\<close> pattern the database refuses; every
  write succeeds, so the \<open>catch\<close> blocks of the first loop of \<open>userSyncer\<close>, which only
  record a failed write in \<open>errors\<close>, are not entered.
\<close>

datatype UserRole = RoleAdmin | RoleMember | RoleViewer | RoleGuest

datatype GroupPermission = PermissionAdmin | PermissionMember

record Team =
  team_id :: string
  team_defaultUserRole :: "UserRole option"

record AuthenticationProvider =
  ap_id :: string
  ap_name :: string
  ap_enabled :: bool
  ap_teamId :: string
  ap_syncDefaultGroupId :: "string option"

record Group =
  group_id :: string
  group_teamId :: string
  group_name :: string

record User =
  user_id :: string
  user_teamId :: string
  user_email :: "string option"
  user_name :: string
  user_avatarUrl :: "string option"
  user_role :: UserRole
  user_suspendedAt :: "nat option"
  user_suspendedById :: "string option"
  user_lastActiveAt :: "nat option"

record UserAuthentication =
  auth_providerId :: string
  auth_authenticationProviderId :: string
  auth_userId :: string
  auth_scopes :: "string list"

record GroupUser =
  gu_userId :: string
  gu_groupId :: string
  gu_permission :: GroupPermission

record Directory =
  db_teams :: "Team list"
  db_authenticationProviders :: "AuthenticationProvider list"
  db_groups :: "Group list"
  db_users :: "User list"
  db_userAuthentications :: "UserAuthentication list"
  db_groupUsers :: "GroupUser list"

text \<open>\<open>Team.findByPk\<close>, \<open>AuthenticationProvider.findByPk\<close> and the two \<open>Group.findOne\<close> queries.\<close>

definition findTeam :: "string \<Rightarrow> Directory \<Rightarrow> Team option" where
  "findTeam tid db = find (\<lambda>t. team_id t = tid) (db_teams db)"

definition findAuthProvider :: "string \<Rightarrow> Directory \<Rightarrow> AuthenticationProvider option" where
  "findAuthProvider aid db = find (\<lambda>a. ap_id a = aid) (db_authenticationProviders db)"

definition findGroupById :: "string \<Rightarrow> string \<Rightarrow> Directory \<Rightarrow> Group option" where
  "findGroupById gid tid db = find (\<lambda>g. group_id g = gid \<and> group_teamId g = tid) (db_groups db)"

definition findGroupByName :: "string \<Rightarrow> string \<Rightarrow> Directory \<Rightarrow> Group option" where
  "findGroupByName tid nm db = find (\<lambda>g. group_teamId g = tid \<and> group_name g = nm) (db_groups db)"

text \<open>
  \<open>User.findOne\<close> with \<open>teamId\<close> and \<open>email: { [Op.iLike]: providerUser.email }\<close>: the rows
  are gone through in the order of the table; the pattern is tried on the email of each user
  of the team, and a user without email never matches. The first user whose email matches
  is returned. The query throws the error of the database when the pattern is refused on a
  row before that. (The query has no \<open>ORDER BY\<close>: the order is the one of the table, in
  which a row that is updated keeps its place.)
\<close>

fun findOneByEmail :: "string \<Rightarrow> string \<Rightarrow> User list \<Rightarrow> string + User option" where
  "findOneByEmail tid pattern [] = Inr None"
| "findOneByEmail tid pattern (u # us) =
     (if user_teamId u = tid then
        (case user_email u of
           None \<Rightarrow> findOneByEmail tid pattern us
         | Some e \<Rightarrow>
             (case iLike pattern e of
                LikeTrue \<Rightarrow> Inr (Some u)
              | LikeFalse \<Rightarrow> findOneByEmail tid pattern us
              | LikeError \<Rightarrow> Inl likeErrorMessage))
      else findOneByEmail tid pattern us)"

definition findUserByEmail :: "string \<Rightarrow> string \<Rightarrow> Directory \<Rightarrow> string + User option" where
  "findUserByEmail tid pattern db = findOneByEmail tid pattern (db_users db)"

text \<open>
  \<open>UserAuthentication.findAll\<close> for one provider, with the required join to a user of the
  team: each authentication row comes with the user row as it is when the query runs.
\<close>

definition findExistingAuths :: "string \<Rightarrow> string \<Rightarrow> Directory \<Rightarrow> (UserAuthentication \<times> User) list" where
  "findExistingAuths aid tid db =
     concat (map (\<lambda>a. case find (\<lambda>u. user_id u = auth_userId a \<and> user_teamId u = tid) (db_users db) of
                        None \<Rightarrow> [] | Some u \<Rightarrow> [(a, u)])
              (filter (\<lambda>a. auth_authenticationProviderId a = aid) (db_userAuthentications db)))"

text \<open>\<open>user.update(values)\<close>: the columns are written to the row that has the user's id.\<close>

definition updateUser :: "string \<Rightarrow> (User \<Rightarrow> User) \<Rightarrow> Directory \<Rightarrow> Directory" where
  "updateUser uid f db = db\<lparr>db_users := map (\<lambda>u. if user_id u = uid then f u else u) (db_users db)\<rparr>"

text \<open>
  A created user gets an identifier that no row of the directory holds: here a string longer
  than every user identifier in use.
\<close>

definition usedUserIds :: "Directory \<Rightarrow> string list" where
  "usedUserIds db =
     map user_id (db_users db) @ map auth_userId (db_userAuthentications db)
       @ map gu_userId (db_groupUsers db)"

definition freshUserId :: "Directory \<Rightarrow> string" where
  "freshUserId db = replicate (Suc (foldr (\<lambda>s n. max (length s) n) (usedUserIds db) 0)) (CHR ''0'')"


section \<open>The reconciliation engine: userSyncer\<close>

record SyncUser =
  providerId :: string
  email :: string
  name :: string
  avatarUrl :: "string option"

record UserSyncerResult =
  created :: nat
  updated :: nat
  suspended :: nat
  unchanged :: nat
  reactivated :: nat
  addedToGroup :: nat
  errors :: "string list"

record Props =
  teamId :: string
  authenticationProviderId :: string
  users :: "SyncUser list"
  defaultGroupId :: "string option"
  defaultGroupName :: "string option"

definition emptyResult :: UserSyncerResult where
  "emptyResult = \<lparr>created = 0, updated = 0, suspended = 0, unchanged = 0, reactivated = 0,
     addedToGroup = 0, errors = []\<rparr>"

text \<open>The \<open>updates\<close> object of \<open>updateUserIfNeeded\<close>: a key is present when its value is set.\<close>

record UserUpdates =
  upd_name :: "string option"
  upd_email :: "string option"
  upd_avatarUrl :: "string option"

definition computeUpdates :: "User \<Rightarrow> SyncUser \<Rightarrow> UserUpdates" where
  "computeUpdates user providerUser =
     \<lparr>upd_name =
        (if truthy (name providerUser) \<and> user_name user \<noteq> name providerUser
         then Some (name providerUser) else None),
      upd_email =
        (if truthy (email providerUser)
            \<and> map_option toLowerCase (user_email user) \<noteq> Some (toLowerCase (email providerUser))
         then Some (email providerUser) else None),
      upd_avatarUrl =
        (if truthyOpt (avatarUrl providerUser) \<and> user_avatarUrl user \<noteq> avatarUrl providerUser
            \<and> (\<not> truthyOpt (user_avatarUrl user)
                 \<or> includesStr (the (user_avatarUrl user)) ''keycloak'')
         then avatarUrl providerUser else None)\<rparr>"

definition noUpdates :: "UserUpdates \<Rightarrow> bool" where
  "noUpdates upd = (upd_name upd = None \<and> upd_email upd = None \<and> upd_avatarUrl upd = None)"

definition applyUpdates :: "UserUpdates \<Rightarrow> User \<Rightarrow> User" where
  "applyUpdates upd u =
     u\<lparr>user_name := (case upd_name upd of None \<Rightarrow> user_name u | Some n \<Rightarrow> n),
       user_email := (case upd_email upd of None \<Rightarrow> user_email u | Some e \<Rightarrow> Some e),
       user_avatarUrl := (case upd_avatarUrl upd of None \<Rightarrow> user_avatarUrl u | Some a \<Rightarrow> Some a)\<rparr>"

text \<open>
  \<open>updateUserIfNeeded\<close> reads the user object it is given, writes the row with that id, counts
  \<open>updated\<close> or \<open>unchanged\<close>, and returns whether it wrote.
\<close>

definition updateUserIfNeeded ::
  "User \<Rightarrow> SyncUser \<Rightarrow> Directory \<times> UserSyncerResult \<Rightarrow> Directory \<times> UserSyncerResult \<times> bool" where
  "updateUserIfNeeded user providerUser st =
     (let (db, result) = st; updates = computeUpdates user providerUser in
      if \<not> noUpdates updates
      then (updateUser (user_id user) (applyUpdates updates) db,
            result\<lparr>updated := updated result + 1\<rparr>, True)
      else (db, result\<lparr>unchanged := unchanged result + 1\<rparr>, False))"

definition clearSuspension :: "User \<Rightarrow> User" where
  "clearSuspension u = u\<lparr>user_suspendedAt := None, user_suspendedById := None\<rparr>"

text \<open>
  The map from provider id to snapshot entry; a later entry replaces an earlier one. The
  second map of the source, by email in lower case, is built and never read; it is left out.
\<close>

definition providerUsersMap :: "SyncUser list \<Rightarrow> string \<Rightarrow> SyncUser option" where
  "providerUsersMap us = fold (\<lambda>u m. m(providerId u \<mapsto> u)) us Map.empty"

text \<open>
  The body of the first loop, over the authentication rows loaded before the loop. The
  state is the directory, the result and the set \<open>processedProviderIds\<close>.
\<close>

definition processExistingAuth ::
  "nat \<Rightarrow> (string \<Rightarrow> SyncUser option) \<Rightarrow> UserAuthentication \<times> User
     \<Rightarrow> Directory \<times> UserSyncerResult \<times> string set \<Rightarrow> Directory \<times> UserSyncerResult \<times> string set" where
  "processExistingAuth now pmap au st =
     (let (auth, user) = au; (db, result, processed) = st;
          processed' = insert (auth_providerId auth) processed in
      case pmap (auth_providerId auth) of
        Some providerUser \<Rightarrow>
          (let (db1, result1, upd) = updateUserIfNeeded user providerUser (db, result) in
           if user_suspendedAt user \<noteq> None \<and> \<not> upd then
             (updateUser (user_id user) clearSuspension db1,
              result1\<lparr>reactivated := reactivated result1 + 1\<rparr>, processed')
           else if user_suspendedAt user \<noteq> None then
             (updateUser (user_id user) clearSuspension db1,
              result1\<lparr>reactivated := reactivated result1 + 1\<rparr>, processed')
           else (db1, result1, processed'))
      | None \<Rightarrow>
          (if user_suspendedAt user = None then
             (updateUser (user_id user) (\<lambda>u. u\<lparr>user_suspendedAt := Some now\<rparr>) db,
              result\<lparr>suspended := suspended result + 1\<rparr>, processed')
           else (db, result\<lparr>unchanged := unchanged result + 1\<rparr>, processed')))"

definition processExistingAuths ::
  "nat \<Rightarrow> (string \<Rightarrow> SyncUser option) \<Rightarrow> (UserAuthentication \<times> User) list
     \<Rightarrow> Directory \<times> UserSyncerResult \<times> string set \<Rightarrow> Directory \<times> UserSyncerResult \<times> string set" where
  "processExistingAuths now pmap existingAuths st = fold (processExistingAuth now pmap) existingAuths st"

text \<open>The rows that the second loop creates.\<close>

definition newAuthentication :: "string \<Rightarrow> string \<Rightarrow> string \<Rightarrow> UserAuthentication" where
  "newAuthentication pid aid uid =
     \<lparr>auth_providerId = pid, auth_authenticationProviderId = aid, auth_userId = uid, auth_scopes = []\<rparr>"

definition createAuthentication :: "UserAuthentication \<Rightarrow> Directory \<Rightarrow> Directory" where
  "createAuthentication a db = db\<lparr>db_userAuthentications := db_userAuthentications db @ [a]\<rparr>"

definition newUser :: "string \<Rightarrow> Team \<Rightarrow> string \<Rightarrow> SyncUser \<Rightarrow> User" where
  "newUser uid team tid providerUser =
     \<lparr>user_id = uid, user_teamId = tid, user_email = Some (email providerUser),
      user_name = name providerUser,
      user_avatarUrl = (if truthyOpt (avatarUrl providerUser) then avatarUrl providerUser else None),
      user_role = (case team_defaultUserRole team of None \<Rightarrow> RoleMember | Some r \<Rightarrow> r),
      user_suspendedAt = None, user_suspendedById = None, user_lastActiveAt = None\<rparr>"

definition createUser :: "User \<Rightarrow> Directory \<Rightarrow> Directory" where
  "createUser u db = db\<lparr>db_users := db_users db @ [u]\<rparr>"

definition createGroupUser :: "GroupUser \<Rightarrow> Directory \<Rightarrow> Directory" where
  "createGroupUser g db = db\<lparr>db_groupUsers := db_groupUsers db @ [g]\<rparr>"

text \<open>
  The body of the second loop, over the snapshot. When the query by email throws, the
  \<open>catch\<close> block records the message and the loop goes on with the next entry.
\<close>

definition processProviderUser ::
  "string \<Rightarrow> string \<Rightarrow> Team \<Rightarrow> Group option \<Rightarrow> string set \<Rightarrow> SyncUser
     \<Rightarrow> Directory \<times> UserSyncerResult \<Rightarrow> Directory \<times> UserSyncerResult" where
  "processProviderUser tid aid team defaultGroup processed providerUser st =
     (let (db, result) = st in
      if providerId providerUser \<in> processed then (db, result)
      else if \<not> truthy (email providerUser) then
        (db, result\<lparr>errors := errors result
            @ [''Skipping user '' @ providerId providerUser @ '': no email address'']\<rparr>)
      else
        (case findUserByEmail tid (email providerUser) db of
           Inl message \<Rightarrow>
             (db, result\<lparr>errors := errors result
                 @ [''Failed to create user '' @ email providerUser @ '': '' @ message]\<rparr>)
         | Inr (Some existingUser) \<Rightarrow>
             (let db1 = createAuthentication
                          (newAuthentication (providerId providerUser) aid (user_id existingUser)) db;
                  (db2, result2, upd) = updateUserIfNeeded existingUser providerUser (db1, result) in
              if user_suspendedAt existingUser \<noteq> None then
                (updateUser (user_id existingUser) clearSuspension db2,
                 result2\<lparr>reactivated := reactivated result2 + 1\<rparr>)
              else if \<not> upd then (db2, result2\<lparr>unchanged := unchanged result2 + 1\<rparr>)
              else (db2, result2))
         | Inr None \<Rightarrow>
             (let user = newUser (freshUserId db) team tid providerUser;
                  db1 = createUser user db;
                  db2 = createAuthentication
                          (newAuthentication (providerId providerUser) aid (user_id user)) db1;
                  result1 = result\<lparr>created := created result + 1\<rparr> in
              case defaultGroup of
                Some g \<Rightarrow>
                  (createGroupUser
                     \<lparr>gu_userId = user_id user, gu_groupId = group_id g,
                      gu_permission = PermissionMember\<rparr> db2,
                   result1\<lparr>addedToGroup := addedToGroup result1 + 1\<rparr>)
              | None \<Rightarrow> (db2, result1))))"

definition processProviderUsers ::
  "string \<Rightarrow> string \<Rightarrow> Team \<Rightarrow> Group option \<Rightarrow> string set \<Rightarrow> SyncUser list
     \<Rightarrow> Directory \<times> UserSyncerResult \<Rightarrow> Directory \<times> UserSyncerResult" where
  "processProviderUsers tid aid team defaultGroup processed us st =
     fold (processProviderUser tid aid team defaultGroup processed) us st"

text \<open>The default group: by id when an id is given, else by name when a name is given.\<close>

definition lookupDefaultGroup :: "Directory \<Rightarrow> Props \<Rightarrow> Group option" where
  "lookupDefaultGroup db props =
     (case defaultGroupId props of
        Some gid \<Rightarrow> (if truthy gid then findGroupById gid (teamId props) db
                     else if truthyOpt (defaultGroupName props)
                     then findGroupByName (teamId props) (the (defaultGroupName props)) db
                     else None)
      | None \<Rightarrow> (if truthyOpt (defaultGroupName props)
                 then findGroupByName (teamId props) (the (defaultGroupName props)) db
                 else None))"

definition emptyListError :: string where
  "emptyListError = ''Provider returned empty user list - sync aborted to prevent mass suspension''"

definition userSyncer :: "nat \<Rightarrow> Directory \<Rightarrow> Props \<Rightarrow> Directory \<times> UserSyncerResult" where
  "userSyncer now db props =
     (let result = emptyResult in
      if users props = [] then (db, result\<lparr>errors := errors result @ [emptyListError]\<rparr>)
      else
        (case findTeam (teamId props) db of
           None \<Rightarrow>
             (db, result\<lparr>errors := errors result @ [''Team '' @ teamId props @ '' not found'']\<rparr>)
         | Some team \<Rightarrow>
             (case findAuthProvider (authenticationProviderId props) db of
                None \<Rightarrow>
                  (db, result\<lparr>errors := errors result
                     @ [''Authentication provider '' @ authenticationProviderId props
                          @ '' not found'']\<rparr>)
              | Some authProvider \<Rightarrow>
                  (let defaultGroup = lookupDefaultGroup db props;
                       pmap = providerUsersMap (users props);
                       existingAuths =
                         findExistingAuths (authenticationProviderId props) (teamId props) db;
                       (db1, result1, processed) =
                         processExistingAuths now pmap existingAuths (db, result, {}) in
                   processProviderUsers (teamId props) (authenticationProviderId props) team
                     defaultGroup processed (users props) (db1, result1)))))"


section \<open>The Keycloak admin client\<close>

record KeycloakUser =
  kc_id :: string
  kc_username :: string
  kc_email :: "string option"
  kc_firstName :: "string option"
  kc_lastName :: "string option"
  kc_enabled :: bool

datatype KeycloakError = AuthenticationError | InvalidRequestError

text \<open>
  \<open>getUsers(first, max, enabled)\<close> is one request to the users endpoint. What the server
  answers is a parameter of the model: an error, or the page it returns. The token that
  \<open>adminRequest\<close> caches does not enter the result and is left out.

  \<open>getAllUsers(batchSize, enabled)\<close> is the \<open>while (true)\<close> loop. Its state is \<open>first\<close> and
  \<open>allUsers\<close>; the model also records the offsets it has requested. A request that throws
  ends the loop with the error.
\<close>

partial_function (option) getAllUsersLoop ::
  "(int \<Rightarrow> int \<Rightarrow> bool option \<Rightarrow> KeycloakError + KeycloakUser list) \<Rightarrow> int \<Rightarrow> bool option
     \<Rightarrow> int \<Rightarrow> KeycloakUser list \<Rightarrow> int list
     \<Rightarrow> ((KeycloakError + KeycloakUser list) \<times> int list) option" where
  "getAllUsersLoop getUsers batchSize enabled first allUsers requested =
     (case getUsers first batchSize enabled of
        Inl err \<Rightarrow> Some (Inl err, requested @ [first])
      | Inr page \<Rightarrow>
          (if int (length page) < batchSize then Some (Inr (allUsers @ page), requested @ [first])
           else if first + batchSize > 100000 then Some (Inr (allUsers @ page), requested @ [first])
           else getAllUsersLoop getUsers batchSize enabled (first + batchSize) (allUsers @ page)
                  (requested @ [first])))"

declare getAllUsersLoop.simps [code]

definition getAllUsers ::
  "(int \<Rightarrow> int \<Rightarrow> bool option \<Rightarrow> KeycloakError + KeycloakUser list) \<Rightarrow> int \<Rightarrow> bool option
     \<Rightarrow> ((KeycloakError + KeycloakUser list) \<times> int list) option" where
  "getAllUsers getUsers batchSize enabled = getAllUsersLoop getUsers batchSize enabled 0 [] []"


section \<open>The scheduled task: SyncOIDCUsersTask\<close>

definition buildUserName :: "KeycloakUser \<Rightarrow> string" where
  "buildUserName user =
     (if truthyOpt (kc_firstName user) \<and> truthyOpt (kc_lastName user)
      then trim (the (kc_firstName user) @ '' '' @ the (kc_lastName user))
      else if truthyOpt (kc_firstName user) then the (kc_firstName user)
      else if truthyOpt (kc_lastName user) then the (kc_lastName user)
      else if truthy (kc_username user) then kc_username user
      else if truthyOpt (kc_email user) then the (kc_email user)
      else ''Unknown User'')"

text \<open>The conversion of Keycloak users to the sync format: \<open>filter\<close>, then \<open>map\<close>.\<close>

definition toSyncUsers :: "KeycloakUser list \<Rightarrow> SyncUser list" where
  "toSyncUsers keycloakUsers =
     map (\<lambda>u. \<lparr>providerId = kc_id u, email = the (kc_email u), name = buildUserName u,
               avatarUrl = None\<rparr>)
       (filter (\<lambda>u. truthyOpt (kc_email u)) keycloakUsers)"

record Env =
  OIDC_SYNC_ENABLED :: bool
  OIDC_SYNC_ADMIN_URL :: "string option"
  OIDC_SYNC_REALM :: "string option"
  OIDC_SYNC_CLIENT_ID :: "string option"
  OIDC_SYNC_CLIENT_SECRET :: "string option"
  OIDC_CLIENT_ID :: "string option"
  OIDC_CLIENT_SECRET :: "string option"

text \<open>The constructor of \<open>KeycloakAdminClient\<close> throws unless credentials, URL and realm are set.\<close>

definition clientConstructs :: "Env \<Rightarrow> bool" where
  "clientConstructs env =
     ((truthyOpt (OIDC_SYNC_CLIENT_ID env) \<or> truthyOpt (OIDC_CLIENT_ID env))
      \<and> (truthyOpt (OIDC_SYNC_CLIENT_SECRET env) \<or> truthyOpt (OIDC_CLIENT_SECRET env))
      \<and> truthyOpt (OIDC_SYNC_ADMIN_URL env) \<and> truthyOpt (OIDC_SYNC_REALM env))"

text \<open>
  The Keycloak server as the task sees it: whether the count request of \<open>testConnection\<close>
  succeeds, and the answers of the users endpoint.
\<close>

record Keycloak =
  kc_countSucceeds :: bool
  kc_getUsers :: "int \<Rightarrow> int \<Rightarrow> bool option \<Rightarrow> KeycloakError + KeycloakUser list"

text \<open>
  The loop of \<open>perform\<close> over the authentication providers: \<open>userSyncer\<close> is called with the
  team, the provider and the users, and nothing else. The model keeps the results that the
  task logs, each with the team it is for.
\<close>

definition syncProvider ::
  "nat \<Rightarrow> SyncUser list \<Rightarrow> AuthenticationProvider
     \<Rightarrow> Directory \<times> (string \<times> UserSyncerResult) list \<Rightarrow> Directory \<times> (string \<times> UserSyncerResult) list" where
  "syncProvider now syncUsers authProvider st =
     (let (db, logged) = st;
          (db', result) = userSyncer now db
             \<lparr>teamId = ap_teamId authProvider, authenticationProviderId = ap_id authProvider,
              users = syncUsers, defaultGroupId = None, defaultGroupName = None\<rparr> in
      (db', logged @ [(ap_teamId authProvider, result)]))"

text \<open>
  \<open>perform\<close>. The partition clause of \<open>CronTask\<close> is a parameter: the predicate on provider
  ids that the partition selects. The result is \<open>None\<close> when fetching the users does not
  return.
\<close>

definition perform ::
  "nat \<Rightarrow> Env \<Rightarrow> Keycloak \<Rightarrow> (string \<Rightarrow> bool) \<Rightarrow> Directory
     \<Rightarrow> (Directory \<times> (string \<times> UserSyncerResult) list) option" where
  "perform now env keycloak inPartition db =
     (if \<not> OIDC_SYNC_ENABLED env then Some (db, [])
      else if \<not> truthyOpt (OIDC_SYNC_ADMIN_URL env) \<or> \<not> truthyOpt (OIDC_SYNC_REALM env)
      then Some (db, [])
      else
        (let authProviders =
               filter (\<lambda>a. ap_name a = ''oidc'' \<and> ap_enabled a \<and> inPartition (ap_id a))
                 (db_authenticationProviders db) in
         if authProviders = [] then Some (db, [])
         else if \<not> clientConstructs env then Some (db, [])
         else if \<not> kc_countSucceeds keycloak then Some (db, [])
         else
           (case getAllUsers (kc_getUsers keycloak) 100 (Some True) of
              None \<Rightarrow> None
            | Some (Inl err, requested) \<Rightarrow> Some (db, [])
            | Some (Inr keycloakUsers, requested) \<Rightarrow>
                (if keycloakUsers = [] then Some (db, [])
                 else Some (fold (syncProvider now (toSyncUsers keycloakUsers)) authProviders
                              (db, []))))))"


section \<open>The empty snapshot\<close>

text \<open>
  C1. Called with an empty list of provider users, \<open>userSyncer\<close> returns at once: every
  counter is 0, \<open>errors\<close> holds the one message about the empty list, and the directory is
  the one it was given (no user row, suspended or not, is touched).
\<close>

theorem userSyncer_empty_snapshot:
  "userSyncer now db
     \<lparr>teamId = tid, authenticationProviderId = aid, users = [],
      defaultGroupId = gid, defaultGroupName = gname\<rparr>
   = (db, \<lparr>created = 0, updated = 0, suspended = 0, unchanged = 0, reactivated = 0,
           addedToGroup = 0,
           errors = [''Provider returned empty user list - sync aborted to prevent mass suspension'']\<rparr>)"
  by (simp add: userSyncer_def emptyResult_def emptyListError_def)

section \<open>Pagination: getAllUsers\<close>

text \<open>The page that a request at an offset returns; no users when the request fails.\<close>

definition pageAt :: "(int \<Rightarrow> int \<Rightarrow> bool option \<Rightarrow> KeycloakError + KeycloakUser list) \<Rightarrow> int \<Rightarrow> bool option \<Rightarrow> int \<Rightarrow> KeycloakUser list" where
  "pageAt getUsers batchSize enabled off = (case getUsers off batchSize enabled of Inl e \<Rightarrow> [] | Inr pg \<Rightarrow> pg)"

text \<open>
  The run of the loop from any state, for a batch size of at least 1: it returns after
  \<open>n + 1\<close> requests at \<open>first\<close>, \<open>first + b\<close>, ...; every page but the last is full; the
  last request failed, or its page is short, or the next offset is beyond 100000.
\<close>

lemma map_upt_shift: "map f [0..<Suc n] = f 0 # map (\<lambda>i. f (Suc i)) [0..<n]"
  by (simp add: map_upt_Suc del: upt_Suc)

lemma getAllUsersLoop_run:
  assumes b: "1 \<le> b"
  shows "\<exists>res n. getAllUsersLoop g b en first acc reqs
            = Some (res, reqs @ map (\<lambda>i. first + int i * b) [0..<Suc n])
          \<and> (0 < n \<longrightarrow> first + int n * b \<le> 100000)
          \<and> (\<forall>i<n. \<exists>pg. g (first + int i * b) b en = Inr pg \<and> b \<le> int (length pg))
          \<and> (\<forall>e. res = Inl e \<longrightarrow> g (first + int n * b) b en = Inl e)
          \<and> (\<forall>us. res = Inr us \<longrightarrow>
                  us = acc @ concat (map (\<lambda>i. pageAt g b en (first + int i * b)) [0..<Suc n])
                  \<and> (\<exists>pg. g (first + int n * b) b en = Inr pg
                        \<and> (int (length pg) < b \<or> 100000 < first + int n * b + b)))"
proof (induction "nat (100001 - first)" arbitrary: first acc reqs rule: less_induct)
  case less
  show ?case
  proof (cases "g first b en")
    case (Inl e)
    then show ?thesis
      by (intro exI[of _ "Inl e"] exI[of _ 0]) (simp add: getAllUsersLoop.simps)
  next
    case (Inr pg)
    show ?thesis
    proof (cases "int (length pg) < b \<or> 100000 < first + b")
      case True
      then show ?thesis using Inr
        by (intro exI[of _ "Inr (acc @ pg)"] exI[of _ 0])
           (auto simp: getAllUsersLoop.simps pageAt_def)
    next
      case False
      then have full: "b \<le> int (length pg)" and le: "first + b \<le> 100000" by auto
      have step: "getAllUsersLoop g b en first acc reqs
                    = getAllUsersLoop g b en (first + b) (acc @ pg) (reqs @ [first])"
        using Inr False by (subst getAllUsersLoop.simps) simp
      have "nat (100001 - (first + b)) < nat (100001 - first)" using b le by simp
      from less[OF this, of "acc @ pg" "reqs @ [first]"]
      obtain res n where
        r: "getAllUsersLoop g b en (first + b) (acc @ pg) (reqs @ [first])
              = Some (res, (reqs @ [first]) @ map (\<lambda>i. first + b + int i * b) [0..<Suc n])"
        and bound: "0 < n \<longrightarrow> first + b + int n * b \<le> 100000"
        and fulls: "\<forall>i<n. \<exists>pg. g (first + b + int i * b) b en = Inr pg \<and> b \<le> int (length pg)"
        and finl: "\<forall>e. res = Inl e \<longrightarrow> g (first + b + int n * b) b en = Inl e"
        and finr: "\<forall>us. res = Inr us \<longrightarrow>
                  us = (acc @ pg) @ concat (map (\<lambda>i. pageAt g b en (first + b + int i * b)) [0..<Suc n])
                  \<and> (\<exists>pg. g (first + b + int n * b) b en = Inr pg
                        \<and> (int (length pg) < b \<or> 100000 < first + b + int n * b + b))"
        by blast
      have shift: "\<And>i. first + b + int i * b = first + int (Suc i) * b"
        by (simp add: algebra_simps)
      have m1: "map (\<lambda>i. first + int i * b) [0..<Suc (Suc n)]
                 = first # map (\<lambda>i. first + b + int i * b) [0..<Suc n]"
        by (subst map_upt_shift) (simp only: shift mult_zero_left of_nat_0 add_0_right)
      have m2: "map (\<lambda>i. pageAt g b en (first + int i * b)) [0..<Suc (Suc n)]
                 = pg # map (\<lambda>i. pageAt g b en (first + b + int i * b)) [0..<Suc n]"
        by (subst map_upt_shift) (simp add: shift pageAt_def Inr del: upt_Suc of_nat_Suc)
      have c1: "getAllUsersLoop g b en first acc reqs
            = Some (res, reqs @ map (\<lambda>i. first + int i * b) [0..<Suc (Suc n)])"
        unfolding step r m1 by simp
      have c2: "first + int (Suc n) * b \<le> 100000"
      proof (cases n)
        case 0 then show ?thesis using le by simp
      next
        case (Suc m) then show ?thesis using bound by (simp add: algebra_simps)
      qed
      have c3: "\<forall>i<Suc n. \<exists>pg. g (first + int i * b) b en = Inr pg \<and> b \<le> int (length pg)"
      proof (intro allI impI)
        fix i assume "i < Suc n"
        show "\<exists>pg. g (first + int i * b) b en = Inr pg \<and> b \<le> int (length pg)"
        proof (cases i)
          case 0 then show ?thesis using Inr full by simp
        next
          case (Suc j)
          then have "j < n" using \<open>i < Suc n\<close> by simp
          with fulls show ?thesis unfolding Suc shift[symmetric] by blast
        qed
      qed
      have c4: "\<forall>e. res = Inl e \<longrightarrow> g (first + int (Suc n) * b) b en = Inl e"
        using finl unfolding shift[symmetric] by simp
      have c5: "\<forall>us. res = Inr us \<longrightarrow>
                  us = acc @ concat (map (\<lambda>i. pageAt g b en (first + int i * b)) [0..<Suc (Suc n)])
                  \<and> (\<exists>pg. g (first + int (Suc n) * b) b en = Inr pg
                        \<and> (int (length pg) < b \<or> 100000 < first + int (Suc n) * b + b))"
        using finr unfolding m2 shift[symmetric] by simp
      show ?thesis
        using c1 c2 c3 c4 c5 by (intro exI[of _ res] exI[of _ "Suc n"]) simp
    qed
  qed
qed


lemma getAllUsers_run:
  assumes b: "1 \<le> b"
  shows "\<exists>res n. getAllUsers g b en = Some (res, map (\<lambda>i. int i * b) [0..<Suc n])
          \<and> int n * b \<le> 100000
          \<and> (\<forall>i<n. \<exists>pg. g (int i * b) b en = Inr pg \<and> b \<le> int (length pg))
          \<and> (\<forall>e. res = Inl e \<longrightarrow> g (int n * b) b en = Inl e)
          \<and> (\<forall>us. res = Inr us \<longrightarrow>
                  us = concat (map (\<lambda>i. pageAt g b en (int i * b)) [0..<Suc n])
                  \<and> (\<exists>pg. g (int n * b) b en = Inr pg
                        \<and> (int (length pg) < b \<or> 100000 < int n * b + b)))"
proof -
  from getAllUsersLoop_run[OF b, of g en 0 "[]" "[]"]
  obtain res n where
    r: "getAllUsersLoop g b en 0 [] [] = Some (res, [] @ map (\<lambda>i. 0 + int i * b) [0..<Suc n])"
    and bound: "0 < n \<longrightarrow> 0 + int n * b \<le> 100000"
    and fulls: "\<forall>i<n. \<exists>pg. g (0 + int i * b) b en = Inr pg \<and> b \<le> int (length pg)"
    and finl: "\<forall>e. res = Inl e \<longrightarrow> g (0 + int n * b) b en = Inl e"
    and finr: "\<forall>us. res = Inr us \<longrightarrow>
                  us = [] @ concat (map (\<lambda>i. pageAt g b en (0 + int i * b)) [0..<Suc n])
                  \<and> (\<exists>pg. g (0 + int n * b) b en = Inr pg
                        \<and> (int (length pg) < b \<or> 100000 < 0 + int n * b + b))"
    by blast
  have nb: "int n * b \<le> 100000" using bound by (cases n) simp_all
  show ?thesis
    unfolding getAllUsers_def
    using r nb fulls finl finr
    by (intro exI[of _ res] exI[of _ n]) (simp del: upt_Suc)
qed

lemma length_concat_pages:
  assumes "\<And>i. length (f i) \<le> m"
  shows "length (concat (map f [0..<k])) \<le> k * m"
proof (induction k)
  case 0 show ?case by simp
next
  case (Suc k)
  have "length (concat (map f [0..<Suc k])) = length (concat (map f [0..<k])) + length (f k)"
    by simp
  also have "\<dots> \<le> k * m + m" using Suc assms[of k] by linarith
  finally show ?case by simp
qed

lemma length_concat_const: "length (concat (map (\<lambda>i. xs) [0..<k])) = k * length xs"
  by (induction k) simp_all

text \<open>Two servers: one that fills every page, one that has two users.\<close>

definition someKeycloakUser :: KeycloakUser where
  "someKeycloakUser = \<lparr>kc_id = ''k'', kc_username = ''user'', kc_email = Some ''user@example.com'',
     kc_firstName = None, kc_lastName = None, kc_enabled = True\<rparr>"

definition fullPages :: "int \<Rightarrow> int \<Rightarrow> bool option \<Rightarrow> KeycloakError + KeycloakUser list" where
  "fullPages first mx enabled = Inr (replicate (nat mx) someKeycloakUser)"

definition twoUsers :: "int \<Rightarrow> int \<Rightarrow> bool option \<Rightarrow> KeycloakError + KeycloakUser list" where
  "twoUsers first mx enabled = Inr (if first = 0 then [someKeycloakUser, someKeycloakUser] else [])"

text \<open>
  C9 (amended). For a batch size of at least 1, \<open>getAllUsers\<close> returns. It requests the
  offsets \<open>0\<close>, \<open>batchSize\<close>, \<open>2 * batchSize\<close>, ..., each at most 100000; every page before
  the last one requested is full. It ends with the error of the last request, or with all
  pages joined, and then the last page is shorter than \<open>batchSize\<close> or the next offset is
  beyond 100000. When no page is longer than \<open>batchSize\<close>, at most \<open>100000 + batchSize\<close>
  users are fetched.
\<close>

theorem getAllUsers_pages:
  assumes b: "1 \<le> batchSize"
  shows "\<exists>res n. getAllUsers getUsers batchSize enabled
            = Some (res, map (\<lambda>i. int i * batchSize) [0..<Suc n])
          \<and> int n * batchSize \<le> 100000
          \<and> (\<forall>i<n. \<exists>pg. getUsers (int i * batchSize) batchSize enabled = Inr pg
                       \<and> batchSize \<le> int (length pg))
          \<and> (case res of
                Inl e \<Rightarrow> getUsers (int n * batchSize) batchSize enabled = Inl e
              | Inr us \<Rightarrow>
                  us = concat (map (\<lambda>i. pageAt getUsers batchSize enabled (int i * batchSize))
                                 [0..<Suc n])
                  \<and> (\<exists>pg. getUsers (int n * batchSize) batchSize enabled = Inr pg
                        \<and> (int (length pg) < batchSize \<or> 100000 < int n * batchSize + batchSize))
                  \<and> ((\<forall>off pg. getUsers off batchSize enabled = Inr pg
                         \<longrightarrow> int (length pg) \<le> batchSize)
                       \<longrightarrow> int (length us) \<le> 100000 + batchSize))"
proof -
  from getAllUsers_run[OF b, of getUsers enabled]
  obtain res n where
    r: "getAllUsers getUsers batchSize enabled = Some (res, map (\<lambda>i. int i * batchSize) [0..<Suc n])"
    and nb: "int n * batchSize \<le> 100000"
    and fulls: "\<forall>i<n. \<exists>pg. getUsers (int i * batchSize) batchSize enabled = Inr pg
                  \<and> batchSize \<le> int (length pg)"
    and finl: "\<forall>e. res = Inl e \<longrightarrow> getUsers (int n * batchSize) batchSize enabled = Inl e"
    and finr: "\<forall>us. res = Inr us \<longrightarrow>
                  us = concat (map (\<lambda>i. pageAt getUsers batchSize enabled (int i * batchSize))
                                 [0..<Suc n])
                  \<and> (\<exists>pg. getUsers (int n * batchSize) batchSize enabled = Inr pg
                        \<and> (int (length pg) < batchSize \<or> 100000 < int n * batchSize + batchSize))"
    by blast
  have len: "int (length us) \<le> 100000 + batchSize"
    if us: "us = concat (map (\<lambda>i. pageAt getUsers batchSize enabled (int i * batchSize)) [0..<Suc n])"
      and short: "\<forall>off pg. getUsers off batchSize enabled = Inr pg \<longrightarrow> int (length pg) \<le> batchSize"
    for us
  proof -
    have "length (pageAt getUsers batchSize enabled off) \<le> nat batchSize" for off
      using short[rule_format, of off] b
      by (cases "getUsers off batchSize enabled") (auto simp: pageAt_def)
    then have "length us \<le> Suc n * nat batchSize"
      unfolding us by (rule length_concat_pages)
    then have "int (length us) \<le> int (Suc n * nat batchSize)" by linarith
    also have "\<dots> = int n * batchSize + batchSize" using b by (simp add: algebra_simps)
    finally show ?thesis using nb by linarith
  qed
  have c4: "case res of
                Inl e \<Rightarrow> getUsers (int n * batchSize) batchSize enabled = Inl e
              | Inr us \<Rightarrow>
                  us = concat (map (\<lambda>i. pageAt getUsers batchSize enabled (int i * batchSize))
                                 [0..<Suc n])
                  \<and> (\<exists>pg. getUsers (int n * batchSize) batchSize enabled = Inr pg
                        \<and> (int (length pg) < batchSize \<or> 100000 < int n * batchSize + batchSize))
                  \<and> ((\<forall>off pg. getUsers off batchSize enabled = Inr pg
                         \<longrightarrow> int (length pg) \<le> batchSize)
                       \<longrightarrow> int (length us) \<le> 100000 + batchSize)"
  proof (cases res)
    case (Inl e) then show ?thesis using finl by simp
  next
    case (Inr us)
    then show ?thesis using finr len[of us] by simp
  qed
  show ?thesis
    using r nb fulls c4 by blast
qed

text \<open>With a batch size of 100 and a server that has two users, one request is made.\<close>

theorem getAllUsers_pages_witness:
  "(1::int) \<le> 100 \<and> getAllUsers twoUsers 100 (Some True) = Some (Inr [someKeycloakUser, someKeycloakUser], [0])"
proof -
  have h: "(1::int) \<le> 100" by simp
  from getAllUsers_pages[OF h, of twoUsers "Some True"]
  obtain res n where
    r: "getAllUsers twoUsers 100 (Some True) = Some (res, map (\<lambda>i. int i * 100) [0..<Suc n])"
    and fulls: "\<forall>i<n. \<exists>pg. twoUsers (int i * 100) 100 (Some True) = Inr pg \<and> 100 \<le> int (length pg)"
    and fin: "case res of
                Inl e \<Rightarrow> twoUsers (int n * 100) 100 (Some True) = Inl e
              | Inr us \<Rightarrow>
                  us = concat (map (\<lambda>i. pageAt twoUsers 100 (Some True) (int i * 100)) [0..<Suc n])
                  \<and> (\<exists>pg. twoUsers (int n * 100) 100 (Some True) = Inr pg
                        \<and> (int (length pg) < 100 \<or> 100000 < int n * 100 + 100))
                  \<and> ((\<forall>off pg. twoUsers off 100 (Some True) = Inr pg \<longrightarrow> int (length pg) \<le> 100)
                       \<longrightarrow> int (length us) \<le> 100000 + 100)"
    by blast
  have n0: "n = 0"
  proof (rule ccontr)
    assume "n \<noteq> 0"
    then have "0 < n" by simp
    with fulls obtain pg where "twoUsers (int 0 * 100) 100 (Some True) = Inr pg" "100 \<le> int (length pg)"
      by blast
    then show False by (auto simp: twoUsers_def)
  qed
  have "res = Inr [someKeycloakUser, someKeycloakUser]"
    using fin unfolding n0 by (cases res) (auto simp: twoUsers_def pageAt_def)
  with r n0 h show ?thesis by simp
qed

text \<open>
  The bound of 100000 users does not hold: with the task's batch size of 100 and a server
  that fills every page, the request at offset 100000 is still made, and 100100 users are
  fetched.
\<close>

theorem getAllUsers_over_limit:
  "\<exists>us requested. getAllUsers fullPages 100 (Some True) = Some (Inr us, requested)
      \<and> length us = 100100"
proof -
  have h: "(1::int) \<le> 100" by simp
  from getAllUsers_run[OF h, of fullPages "Some True"]
  obtain res n where
    r: "getAllUsers fullPages 100 (Some True) = Some (res, map (\<lambda>i. int i * 100) [0..<Suc n])"
    and bound: "int n * 100 \<le> 100000"
    and finl: "\<forall>e. res = Inl e \<longrightarrow> fullPages (int n * 100) 100 (Some True) = Inl e"
    and finr: "\<forall>us. res = Inr us \<longrightarrow>
                  us = concat (map (\<lambda>i. pageAt fullPages 100 (Some True) (int i * 100)) [0..<Suc n])
                  \<and> (\<exists>pg. fullPages (int n * 100) 100 (Some True) = Inr pg
                        \<and> (int (length pg) < 100 \<or> 100000 < int n * 100 + 100))"
    by blast
  have pg: "pageAt fullPages 100 (Some True) off = replicate 100 someKeycloakUser" for off
    by (simp add: pageAt_def fullPages_def)
  obtain us where res: "res = Inr us"
    using finl by (cases res) (auto simp: fullPages_def)
  from finr res have us: "us = concat (map (\<lambda>i. replicate 100 someKeycloakUser) [0..<Suc n])"
    and stop: "100000 < int n * 100 + 100"
    by (auto simp: pg fullPages_def simp del: upt_Suc)
  from stop have "1000 \<le> n" by linarith
  moreover from bound have "n \<le> 1000" by linarith
  ultimately have n: "n = 1000" by simp
  have "length us = Suc n * 100"
    unfolding us by (subst length_concat_const) simp
  then have "length us = 100100" using n by simp
  with r res show ?thesis by blast
qed


text \<open>
  With a batch size of 0 no page is short and the offset stays 0: while the server
  answers, the loop does not return.
\<close>

lemma getAllUsersLoop_zero_never_returns:
  assumes "getAllUsersLoop g b en first acc reqs = Some y"
  shows "\<not> (b = 0 \<and> first \<le> 100000 \<and> (\<forall>off. \<exists>pg. g off 0 en = Inr pg))"
proof (rule getAllUsersLoop.raw_induct[where P = "\<lambda>g b en first acc reqs y.
          \<not> (b = 0 \<and> first \<le> 100000 \<and> (\<forall>off. \<exists>pg. g off 0 en = Inr pg))", OF _ assms])
  fix loop :: "(int \<Rightarrow> int \<Rightarrow> bool option \<Rightarrow> KeycloakError + KeycloakUser list) \<Rightarrow> int \<Rightarrow> bool option
     \<Rightarrow> int \<Rightarrow> KeycloakUser list \<Rightarrow> int list
     \<Rightarrow> ((KeycloakError + KeycloakUser list) \<times> int list) option"
    and g b en first acc reqs y
  assume IH: "\<And>g b en first acc reqs y. loop g b en first acc reqs = Some y \<Longrightarrow>
       \<not> (b = 0 \<and> first \<le> 100000 \<and> (\<forall>off. \<exists>pg. g off 0 en = Inr pg))"
    and body: "(case g first b en of
        Inl err \<Rightarrow> Some (Inl err, reqs @ [first])
      | Inr page \<Rightarrow>
          (if int (length page) < b then Some (Inr (acc @ page), reqs @ [first])
           else if first + b > 100000 then Some (Inr (acc @ page), reqs @ [first])
           else loop g b en (first + b) (acc @ page) (reqs @ [first]))) = Some y"
  show "\<not> (b = 0 \<and> first \<le> 100000 \<and> (\<forall>off. \<exists>pg. g off 0 en = Inr pg))"
  proof
    assume a: "b = 0 \<and> first \<le> 100000 \<and> (\<forall>off. \<exists>pg. g off 0 en = Inr pg)"
    then obtain pg where pg: "g first 0 en = Inr pg" by blast
    from body a pg have "loop g b en first (acc @ pg) (reqs @ [first]) = Some y" by simp
    from IH[OF this] a show False by simp
  qed
qed

lemma getAllUsers_zero_never_returns:
  assumes "\<forall>off. \<exists>pg. g off 0 en = Inr pg"
  shows "getAllUsers g 0 en = None"
proof (rule ccontr)
  assume "getAllUsers g 0 en \<noteq> None"
  then obtain y where "getAllUsersLoop g 0 en 0 [] [] = Some y" by (auto simp: getAllUsers_def)
  from getAllUsersLoop_zero_never_returns[OF this] assms show False by simp
qed


section \<open>The scheduled task adds nobody to a group\<close>

lemma updateUser_groupUsers [simp]: "db_groupUsers (updateUser uid f db) = db_groupUsers db"
  by (simp add: updateUser_def)

lemma createAuthentication_groupUsers [simp]:
  "db_groupUsers (createAuthentication a db) = db_groupUsers db"
  by (simp add: createAuthentication_def)

lemma createUser_groupUsers [simp]: "db_groupUsers (createUser u db) = db_groupUsers db"
  by (simp add: createUser_def)

lemma updateUserIfNeeded_groups:
  "updateUserIfNeeded user p (db, r) = (db', r', b) \<Longrightarrow>
     db_groupUsers db' = db_groupUsers db \<and> addedToGroup r' = addedToGroup r"
  by (auto simp: updateUserIfNeeded_def Let_def split: if_splits)

lemma processExistingAuth_groups:
  "processExistingAuth now pmap au (db, r, pr) = (db', r', pr') \<Longrightarrow>
     db_groupUsers db' = db_groupUsers db \<and> addedToGroup r' = addedToGroup r"
  by (cases au)
     (auto simp: processExistingAuth_def Let_def split: option.splits prod.splits if_splits
           dest!: updateUserIfNeeded_groups)

lemma processExistingAuths_groups:
  "processExistingAuths now pmap xs (db, r, pr) = (db', r', pr') \<Longrightarrow>
     db_groupUsers db' = db_groupUsers db \<and> addedToGroup r' = addedToGroup r"
proof (induction xs arbitrary: db r pr)
  case Nil
  then show ?case by (simp add: processExistingAuths_def)
next
  case (Cons x xs)
  obtain db1 r1 pr1 where s: "processExistingAuth now pmap x (db, r, pr) = (db1, r1, pr1)"
    by (metis prod_cases3)
  from Cons.prems have "processExistingAuths now pmap xs (db1, r1, pr1) = (db', r', pr')"
    by (simp add: processExistingAuths_def s)
  from Cons.IH[OF this] processExistingAuth_groups[OF s] show ?case by simp
qed

lemma processProviderUser_no_group:
  "processProviderUser tid aid team None processed p (db, r) = (db', r') \<Longrightarrow>
     db_groupUsers db' = db_groupUsers db \<and> addedToGroup r' = addedToGroup r"
  by (auto simp: processProviderUser_def Let_def
           split: sum.splits option.splits prod.splits if_splits
           dest!: updateUserIfNeeded_groups)

lemma processProviderUsers_no_group:
  "processProviderUsers tid aid team None processed ps (db, r) = (db', r') \<Longrightarrow>
     db_groupUsers db' = db_groupUsers db \<and> addedToGroup r' = addedToGroup r"
proof (induction ps arbitrary: db r)
  case Nil
  then show ?case by (simp add: processProviderUsers_def)
next
  case (Cons x xs)
  obtain db1 r1 where s: "processProviderUser tid aid team None processed x (db, r) = (db1, r1)"
    by (metis surj_pair)
  from Cons.prems have "processProviderUsers tid aid team None processed xs (db1, r1) = (db', r')"
    by (simp add: processProviderUsers_def s)
  from Cons.IH[OF this] processProviderUser_no_group[OF s] show ?case by simp
qed

lemma userSyncer_no_group:
  assumes "defaultGroupId props = None" "defaultGroupName props = None"
    and "userSyncer now db props = (db', r')"
  shows "db_groupUsers db' = db_groupUsers db \<and> addedToGroup r' = 0"
proof -
  have dg: "lookupDefaultGroup db props = None"
    using assms(1,2) by (simp add: lookupDefaultGroup_def truthyOpt_def)
  show ?thesis
    using assms(3)
    by (auto simp: userSyncer_def Let_def dg emptyResult_def
          split: if_splits option.splits prod.splits
          dest!: processExistingAuths_groups processProviderUsers_no_group)
qed

lemma syncProvider_groups:
  assumes "syncProvider now su ap (db, logged) = (db', logged')"
  shows "db_groupUsers db' = db_groupUsers db
     \<and> (list_all (\<lambda>tr. addedToGroup (snd tr) = 0) logged
          \<longrightarrow> list_all (\<lambda>tr. addedToGroup (snd tr) = 0) logged')"
proof -
  let ?props = "\<lparr>teamId = ap_teamId ap, authenticationProviderId = ap_id ap,
              users = su, defaultGroupId = None, defaultGroupName = None\<rparr>"
  obtain d r where u: "userSyncer now db ?props = (d, r)" by (metis surj_pair)
  have "db_groupUsers d = db_groupUsers db \<and> addedToGroup r = 0"
    by (rule userSyncer_no_group[OF _ _ u]) simp_all
  with assms u show ?thesis by (auto simp: syncProvider_def)
qed

lemma syncProviders_groups:
  "fold (syncProvider now su) aps (db, logged) = (db', logged') \<Longrightarrow>
   list_all (\<lambda>tr. addedToGroup (snd tr) = 0) logged \<Longrightarrow>
     db_groupUsers db' = db_groupUsers db \<and> list_all (\<lambda>tr. addedToGroup (snd tr) = 0) logged'"
proof (induction aps arbitrary: db logged)
  case Nil
  then show ?case by simp
next
  case (Cons a aps)
  obtain d l where s: "syncProvider now su a (db, logged) = (d, l)" by (metis surj_pair)
  from syncProvider_groups[OF s] Cons.prems(2)
  have 1: "db_groupUsers d = db_groupUsers db" "list_all (\<lambda>tr. addedToGroup (snd tr) = 0) l"
    by simp_all
  from Cons.prems(1) have "fold (syncProvider now su) aps (d, l) = (db', logged')"
    by (simp add: s)
  from Cons.IH[OF this 1(2)] 1(1) show ?case by simp
qed

lemma getAllUsers_100_returns: "\<exists>r. getAllUsers g 100 en = Some r"
proof -
  have "(1::int) \<le> 100" by simp
  from getAllUsers_run[OF this, of g en] show ?thesis by blast
qed

text \<open>
  An installation for the examples: one team with an OIDC provider whose settings name a
  default group, the group, and a Keycloak server with two users, one of them without email.
\<close>

definition exampleTeam :: Team where
  "exampleTeam = \<lparr>team_id = ''T'', team_defaultUserRole = None\<rparr>"

definition exampleProvider :: AuthenticationProvider where
  "exampleProvider = \<lparr>ap_id = ''P'', ap_name = ''oidc'', ap_enabled = True, ap_teamId = ''T'',
     ap_syncDefaultGroupId = Some ''G''\<rparr>"

definition emptyDirectory :: Directory where
  "emptyDirectory = \<lparr>db_teams = [exampleTeam], db_authenticationProviders = [exampleProvider],
     db_groups = [\<lparr>group_id = ''G'', group_teamId = ''T'', group_name = ''Everyone''\<rparr>],
     db_users = [], db_userAuthentications = [], db_groupUsers = []\<rparr>"

definition exampleEnv :: Env where
  "exampleEnv = \<lparr>OIDC_SYNC_ENABLED = True, OIDC_SYNC_ADMIN_URL = Some ''https://keycloak.example.com'',
     OIDC_SYNC_REALM = Some ''myrealm'', OIDC_SYNC_CLIENT_ID = None, OIDC_SYNC_CLIENT_SECRET = None,
     OIDC_CLIENT_ID = Some ''outline'', OIDC_CLIENT_SECRET = Some ''secret''\<rparr>"

definition noEmailUser :: KeycloakUser where
  "noEmailUser = \<lparr>kc_id = ''k1'', kc_username = ''nomail'', kc_email = None,
     kc_firstName = Some ''No'', kc_lastName = Some ''Mail'', kc_enabled = True\<rparr>"

definition annLee :: KeycloakUser where
  "annLee = \<lparr>kc_id = ''k2'', kc_username = ''ann'', kc_email = Some ''v@x'',
     kc_firstName = Some '' Ann'', kc_lastName = Some ''Lee'', kc_enabled = True\<rparr>"

definition exampleKeycloak :: Keycloak where
  "exampleKeycloak = \<lparr>kc_countSucceeds = True,
     kc_getUsers = (\<lambda>first mx enabled. Inr (if first = 0 then [noEmailUser, annLee] else []))\<rparr>"

text \<open>What the task leaves behind: it returns, with the memberships it found and no count.\<close>

definition groupsKept :: "Directory \<Rightarrow> (Directory \<times> (string \<times> UserSyncerResult) list) option \<Rightarrow> bool" where
  "groupsKept db r = (case r of None \<Rightarrow> False
     | Some (db', logged) \<Rightarrow> db_groupUsers db' = db_groupUsers db
         \<and> list_all (\<lambda>tr. addedToGroup (snd tr) = 0) logged)"

lemma groupsKept_skip: "groupsKept db (Some (db, []))"
  by (simp add: groupsKept_def)

lemma groupsKept_fold: "groupsKept db (Some (fold (syncProvider now su) aps (db, [])))"
proof -
  obtain d l where f: "fold (syncProvider now su) aps (db, []) = (d, l)"
    by (metis surj_pair)
  from syncProviders_groups[OF f] show ?thesis by (simp add: groupsKept_def f)
qed

lemma groupsKept_perform: "groupsKept db (perform now env keycloak inPartition db)"
proof -
  obtain res requested where g: "getAllUsers (kc_getUsers keycloak) 100 (Some True) = Some (res, requested)"
    using getAllUsers_100_returns[of "kc_getUsers keycloak" "Some True"] by auto
  show ?thesis
    unfolding perform_def Let_def g
    by (cases res) (simp_all add: groupsKept_skip groupsKept_fold)
qed

text \<open>
  C10. The scheduled task passes neither \<open>defaultGroupId\<close> nor \<open>defaultGroupName\<close> to
  \<open>userSyncer\<close>. So a run of \<open>perform\<close>, on any directory and whatever \<open>syncDefaultGroupId\<close>
  the providers' settings hold, returns with the \<open>GroupUser\<close> table as it found it, and
  \<open>addedToGroup\<close> is 0 in every result it logs.
\<close>

theorem perform_adds_nobody_to_group:
  "\<exists>db' logged. perform now env keycloak inPartition db = Some (db', logged)
      \<and> db_groupUsers db' = db_groupUsers db
      \<and> list_all (\<lambda>tr. addedToGroup (snd tr) = 0) logged"
  using groupsKept_perform[of db now env keycloak inPartition]
  by (auto simp: groupsKept_def split: option.splits)

text \<open>
  In the example the provider's settings name the existing group \<open>G\<close>; the run creates one
  user and no membership.
\<close>

theorem perform_adds_nobody_to_group_witness:
  "\<exists>db' logged. perform 0 exampleEnv exampleKeycloak (\<lambda>i. True) emptyDirectory = Some (db', logged)
      \<and> length (db_users db') = 1 \<and> db_groupUsers db' = []
      \<and> list_all (\<lambda>tr. addedToGroup (snd tr) = 0) logged"
proof -
  from perform_adds_nobody_to_group[of 0 exampleEnv exampleKeycloak "\<lambda>i. True" emptyDirectory]
  obtain db' logged where
    p: "perform 0 exampleEnv exampleKeycloak (\<lambda>i. True) emptyDirectory = Some (db', logged)"
    and g: "db_groupUsers db' = db_groupUsers emptyDirectory"
    and l: "list_all (\<lambda>tr. addedToGroup (snd tr) = 0) logged"
    by blast
  have "length (db_users (fst (the (perform 0 exampleEnv exampleKeycloak (\<lambda>i. True) emptyDirectory)))) = 1"
    by code_simp
  then have u: "length (db_users db') = 1" by (simp add: p)
  have e: "db_groupUsers db' = []" using g by (simp add: emptyDirectory_def)
  from p u e l show ?thesis by blast
qed


section \<open>Snapshot normalization\<close>

text \<open>A property that every step of a loop keeps holds after the loop.\<close>

lemma fold_invariant:
  assumes "I s" and "\<And>x t. x \<in> set xs \<Longrightarrow> I t \<Longrightarrow> I (f x t)"
  shows "I (fold f xs s)"
  using assms by (induction xs arbitrary: s) simp_all


text \<open>
  Otherwise \<open>userSyncer\<close> returns before the loops: the directory is the one it was given,
  every counter is 0, and \<open>errors\<close> holds one message.
\<close>

lemma userSyncer_returns_early:
  assumes "users props = [] \<or> findTeam (teamId props) db = None
             \<or> findAuthProvider (authenticationProviderId props) db = None"
  shows "\<exists>message. userSyncer now db props = (db, emptyResult\<lparr>errors := [message]\<rparr>)"
proof (cases "users props = []")
  case True
  then show ?thesis by (simp add: userSyncer_def emptyResult_def)
next
  case ne: False
  show ?thesis
  proof (cases "findTeam (teamId props) db")
    case None
    with ne show ?thesis by (simp add: userSyncer_def emptyResult_def)
  next
    case (Some team)
    with ne assms have "findAuthProvider (authenticationProviderId props) db = None" by simp
    with ne Some show ?thesis by (simp add: userSyncer_def emptyResult_def)
  qed
qed















text \<open>
  An entry whose email ends in a backslash: the team has a user whose email goes on after
  the \<open>a\<close>, so the database refuses the pattern. The \<open>catch\<close> block records the failure, no
  user is created, and the loop goes on with the next entry.
\<close>

lemma refused_pattern_is_recorded:
  "userSyncer 0
      (emptyDirectory\<lparr>db_users :=
         [\<lparr>user_id = ''u1'', user_teamId = ''T'', user_email = Some ''ab@x'', user_name = ''Ab'',
           user_avatarUrl = None, user_role = RoleMember, user_suspendedAt = None,
           user_suspendedById = None, user_lastActiveAt = None\<rparr>]\<rparr>)
      \<lparr>teamId = ''T'', authenticationProviderId = ''P'',
       users = [\<lparr>providerId = ''g1'', email = [CHR ''a'', CHR 0x5C], name = ''A'', avatarUrl = None\<rparr>,
                \<lparr>providerId = ''g2'', email = ''c@x'', name = ''C'', avatarUrl = None\<rparr>],
       defaultGroupId = None, defaultGroupName = None\<rparr>
   = (emptyDirectory\<lparr>db_users :=
         [\<lparr>user_id = ''u1'', user_teamId = ''T'', user_email = Some ''ab@x'', user_name = ''Ab'',
           user_avatarUrl = None, user_role = RoleMember, user_suspendedAt = None,
           user_suspendedById = None, user_lastActiveAt = None\<rparr>,
          \<lparr>user_id = ''000'', user_teamId = ''T'', user_email = Some ''c@x'', user_name = ''C'',
           user_avatarUrl = None, user_role = RoleMember, user_suspendedAt = None,
           user_suspendedById = None, user_lastActiveAt = None\<rparr>],
        db_userAuthentications :=
         [\<lparr>auth_providerId = ''g2'', auth_authenticationProviderId = ''P'',
           auth_userId = ''000'', auth_scopes = []\<rparr>]\<rparr>,
      \<lparr>created = 1, updated = 0, suspended = 0, unchanged = 0, reactivated = 0,
       addedToGroup = 0,
       errors = [''Failed to create user a'' @ [CHR 0x5C]
                   @ '': LIKE pattern must not end with escape character'']\<rparr>)"
  by code_simp


section \<open>Linking an existing user\<close>

text \<open>
  The directory of the repository's tests for linking: the team has a user, invited with
  the email \<open>test@example.com\<close>, who has no authentication for the provider. The provider
  returns one user with the same email in upper case and the same name.
\<close>

definition invitedUser :: User where
  "invitedUser = \<lparr>user_id = ''u1'', user_teamId = ''T'', user_email = Some ''test@example.com'',
     user_name = ''Test User'', user_avatarUrl = None, user_role = RoleMember,
     user_suspendedAt = None, user_suspendedById = None, user_lastActiveAt = None\<rparr>"

definition invitedDirectory :: Directory where
  "invitedDirectory = emptyDirectory\<lparr>db_users := [invitedUser]\<rparr>"

definition upperCaseEntry :: SyncUser where
  "upperCaseEntry = \<lparr>providerId = ''g1'', email = ''TEST@EXAMPLE.COM'', name = ''Test User'',
     avatarUrl = None\<rparr>"

definition syncProps :: "SyncUser list \<Rightarrow> Props" where
  "syncProps us = \<lparr>teamId = ''T'', authenticationProviderId = ''P'', users = us,
     defaultGroupId = None, defaultGroupName = None\<rparr>"

text \<open>
  C4. The entry is linked to the invited user: an authentication row is created and
  \<open>created\<close> stays 0. Nothing about the user differs, and the user is not suspended, so
  \<open>unchanged\<close> is to grow by 1. \<open>userSyncer\<close> counts it twice: once in
  \<open>updateUserIfNeeded\<close>, and once more in the branch \<open>else if (!updated)\<close> of the link path.
\<close>

theorem link_counts_unchanged_twice:
  "userSyncer 0 invitedDirectory (syncProps [upperCaseEntry])
     = (invitedDirectory\<lparr>db_userAuthentications :=
           [\<lparr>auth_providerId = ''g1'', auth_authenticationProviderId = ''P'',
             auth_userId = ''u1'', auth_scopes = []\<rparr>]\<rparr>,
        \<lparr>created = 0, updated = 0, suspended = 0, unchanged = 2, reactivated = 0,
         addedToGroup = 0, errors = []\<rparr>)"
  by code_simp

section \<open>The turns of the two loops\<close>

text \<open>The same user, now linked to the provider with the provider id \<open>g1\<close>.\<close>

definition linkedAuthentication :: UserAuthentication where
  "linkedAuthentication = \<lparr>auth_providerId = ''g1'', auth_authenticationProviderId = ''P'',
     auth_userId = ''u1'', auth_scopes = []\<rparr>"

definition linkedDirectory :: Directory where
  "linkedDirectory = invitedDirectory\<lparr>db_userAuthentications := [linkedAuthentication]\<rparr>"

text \<open>
  \<open>suspendNow\<close> is the write of the orphan branch. \<open>settle\<close> is what a matched or linked
  user's row goes through: the update, when one is needed, and then the reactivation, when
  the user object is suspended. \<open>countMatch\<close> and \<open>countLink\<close> are what the first loop and
  the link path of the second loop add to the counters.
\<close>

definition suspendNow :: "nat \<Rightarrow> User \<Rightarrow> User" where
  "suspendNow now u = u\<lparr>user_suspendedAt := Some now\<rparr>"

definition settle :: "User \<Rightarrow> SyncUser \<Rightarrow> User \<Rightarrow> User" where
  "settle user providerUser =
     (if user_suspendedAt user \<noteq> None then clearSuspension else (\<lambda>v. v))
       \<circ> (if \<not> noUpdates (computeUpdates user providerUser)
          then applyUpdates (computeUpdates user providerUser) else (\<lambda>v. v))"


definition countLink :: "User \<Rightarrow> SyncUser \<Rightarrow> UserSyncerResult \<Rightarrow> UserSyncerResult" where
  "countLink user providerUser result =
     result\<lparr>updated := updated result
               + (if \<not> noUpdates (computeUpdates user providerUser) then 1 else 0),
            unchanged := unchanged result
               + (if \<not> noUpdates (computeUpdates user providerUser) then 0
                  else if user_suspendedAt user \<noteq> None then 1 else 2),
            reactivated := reactivated result + (if user_suspendedAt user \<noteq> None then 1 else 0)\<rparr>"

lemma applyUpdates_keeps [simp]:
  "user_id (applyUpdates upd u) = user_id u"
  "user_teamId (applyUpdates upd u) = user_teamId u"
  "user_suspendedAt (applyUpdates upd u) = user_suspendedAt u"
  "user_suspendedById (applyUpdates upd u) = user_suspendedById u"
  by (simp_all add: applyUpdates_def)

lemma clearSuspension_keeps [simp]:
  "user_id (clearSuspension u) = user_id u"
  "user_teamId (clearSuspension u) = user_teamId u"
  "user_email (clearSuspension u) = user_email u"
  "user_name (clearSuspension u) = user_name u"
  "user_avatarUrl (clearSuspension u) = user_avatarUrl u"
  "user_suspendedAt (clearSuspension u) = None"
  "user_suspendedById (clearSuspension u) = None"
  by (simp_all add: clearSuspension_def)

lemma settle_keeps [simp]:
  "user_id (settle user p v) = user_id v"
  "user_teamId (settle user p v) = user_teamId v"
  by (simp_all add: settle_def)

lemma suspendNow_keeps [simp]:
  "user_id (suspendNow now v) = user_id v"
  "user_teamId (suspendNow now v) = user_teamId v"
  by (simp_all add: suspendNow_def)

lemma updateUser_id [simp]: "updateUser i (\<lambda>v. v) db = db"
  by (simp add: updateUser_def)



lemma processProviderUser_processed:
  "providerId p \<in> processed \<Longrightarrow> processProviderUser tid aid team dg processed p st = st"
  by (cases st) (simp add: processProviderUser_def)

lemma processProviderUser_no_email:
  "providerId p \<notin> processed \<Longrightarrow> \<not> truthy (email p) \<Longrightarrow>
     processProviderUser tid aid team dg processed p (db, r)
       = (db, r\<lparr>errors := errors r @ [''Skipping user '' @ providerId p @ '': no email address'']\<rparr>)"
  by (simp add: processProviderUser_def)

lemma processProviderUser_failed:
  assumes "providerId p \<notin> processed" "truthy (email p)"
    and "findUserByEmail tid (email p) db = Inl message"
  shows "processProviderUser tid aid team dg processed p (db, r)
     = (db, r\<lparr>errors := errors r @ [''Failed to create user '' @ email p @ '': '' @ message]\<rparr>)"
  using assms by (simp add: processProviderUser_def)

lemma processProviderUser_link:
  assumes "providerId p \<notin> processed" "truthy (email p)"
    and "findUserByEmail tid (email p) db = Inr (Some existingUser)"
  shows "processProviderUser tid aid team dg processed p (db, r)
     = (updateUser (user_id existingUser) (settle existingUser p)
          (createAuthentication (newAuthentication (providerId p) aid (user_id existingUser)) db),
        countLink existingUser p r)"
  using assms
  by (auto simp: processProviderUser_def updateUserIfNeeded_def updateUser_def Let_def comp_def
        settle_def countLink_def createAuthentication_def
        intro!: arg_cong[where f = "\<lambda>us. db\<lparr>db_userAuthentications := x, db_users := us\<rparr>" for x])

lemma processProviderUser_create:
  assumes "providerId p \<notin> processed" "truthy (email p)"
    and "findUserByEmail tid (email p) db = Inr None"
  shows "processProviderUser tid aid team dg processed p (db, r)
     = (let user = newUser (freshUserId db) team tid p;
            db2 = createAuthentication (newAuthentication (providerId p) aid (user_id user))
                    (createUser user db) in
        case dg of
          None \<Rightarrow> (db2, r\<lparr>created := created r + 1\<rparr>)
        | Some g \<Rightarrow>
            (createGroupUser \<lparr>gu_userId = user_id user, gu_groupId = group_id g,
                              gu_permission = PermissionMember\<rparr> db2,
             r\<lparr>created := created r + 1, addedToGroup := addedToGroup r + 1\<rparr>))"
  using assms
  by (simp add: processProviderUser_def Let_def split: option.splits)

text \<open>The map of the snapshot by provider id holds, for a key, the last entry with that id.\<close>

lemma find_append:
  "find P (xs @ ys) = (case find P xs of None \<Rightarrow> find P ys | Some x \<Rightarrow> Some x)"
  by (induction xs) simp_all

lemma find_hit: "x \<in> set xs \<Longrightarrow> P x \<Longrightarrow> find P xs \<noteq> None"
  by (auto simp: find_None_iff)

lemma find_Some_mem: "find P xs = Some x \<Longrightarrow> x \<in> set xs \<and> P x"
  by (auto simp: find_Some_iff)

lemma find_unique:
  assumes "distinct (map f xs)" "x \<in> set xs"
  shows "find (\<lambda>y. f y = f x) xs = Some x"
proof -
  from find_hit[of x xs "\<lambda>y. f y = f x"] assms(2)
  obtain w where w: "find (\<lambda>y. f y = f x) xs = Some w" by auto
  from find_Some_mem[OF w] have "w \<in> set xs" "f w = f x" by simp_all
  with assms have "w = x" by (meson distinct_map inj_on_eq_iff)
  with w show ?thesis by simp
qed

lemma fold_map_upd:
  "fold (\<lambda>u m. m(f u \<mapsto> u)) us m k
     = (case find (\<lambda>u. f u = k) (rev us) of None \<Rightarrow> m k | Some s \<Rightarrow> Some s)"
  by (induction us arbitrary: m) (auto simp: find_append split: option.splits)

lemma providerUsersMap_find:
  "providerUsersMap us k = find (\<lambda>u. providerId u = k) (rev us)"
  by (simp add: providerUsersMap_def fold_map_upd split: option.splits)


lemma providerUsersMap_None: "providerUsersMap us k = None \<longleftrightarrow> k \<notin> providerId ` set us"
  by (auto simp: providerUsersMap_find find_None_iff)

lemma providerUsersMap_distinct:
  assumes "distinct (map providerId us)" "s \<in> set us"
  shows "providerUsersMap us (providerId s) = Some s"
proof -
  have "distinct (map providerId (rev us))" using assms(1) by (simp add: rev_map[symmetric])
  moreover have "s \<in> set (rev us)" using assms(2) by simp
  ultimately show ?thesis unfolding providerUsersMap_find by (rule find_unique)
qed

text \<open>The first loop leaves the authentication rows alone and marks every row's provider id.\<close>

lemma updateUser_auths [simp]:
  "db_userAuthentications (updateUser uid f db) = db_userAuthentications db"
  by (simp add: updateUser_def)

lemma updateUserIfNeeded_auths:
  "updateUserIfNeeded user p (db, r) = (db', r', b) \<Longrightarrow>
     db_userAuthentications db' = db_userAuthentications db"
  by (auto simp: updateUserIfNeeded_def Let_def split: if_splits)

lemma processExistingAuth_auths:
  "db_userAuthentications (fst (processExistingAuth now pmap au st)) = db_userAuthentications (fst st)"
  by (cases au; cases st)
     (auto simp: processExistingAuth_def Let_def split: option.splits prod.splits if_splits
           dest!: updateUserIfNeeded_auths)

lemma processExistingAuths_auths:
  "db_userAuthentications (fst (processExistingAuths now pmap xs st)) = db_userAuthentications (fst st)"
  unfolding processExistingAuths_def
  by (rule fold_invariant[where I = "\<lambda>t. db_userAuthentications (fst t) = db_userAuthentications (fst st)"])
     (simp_all add: processExistingAuth_auths)

lemma processExistingAuth_processed:
  "snd (snd (processExistingAuth now pmap au st)) = insert (auth_providerId (fst au)) (snd (snd st))"
  by (cases au; cases st)
     (auto simp: processExistingAuth_def Let_def split: option.splits prod.splits if_splits)

lemma processExistingAuths_processed:
  "snd (snd (processExistingAuths now pmap xs st))
     = snd (snd st) \<union> auth_providerId ` fst ` set xs"
  unfolding processExistingAuths_def
  by (induction xs arbitrary: st) (auto simp: processExistingAuth_processed)




text \<open>
  The first loop in closed form. Every row of the user table takes, in the order of the
  loaded authentication rows, the write of each loaded row that is joined to it; the
  counters grow by the number of loaded rows of each kind; the provider id of every loaded
  row is marked. A loaded row \<open>(auth, user)\<close> is \<open>rowChanged\<close> when the snapshot has its
  provider id and an attribute of \<open>user\<close> differs, \<open>rowSame\<close> when the snapshot has the id and
  nothing differs, \<open>rowReactivated\<close> when the snapshot has the id and \<open>user\<close> is suspended,
  \<open>rowSuspended\<close> when the snapshot lacks the id and \<open>user\<close> is active, and \<open>rowLeft\<close> when the
  snapshot lacks the id and \<open>user\<close> is suspended already.
\<close>

definition firstLoopWrite ::
  "nat \<Rightarrow> (string \<Rightarrow> SyncUser option) \<Rightarrow> UserAuthentication \<times> User \<Rightarrow> User \<Rightarrow> User" where
  "firstLoopWrite now pmap au =
     (case pmap (auth_providerId (fst au)) of
        Some s \<Rightarrow> settle (snd au) s
      | None \<Rightarrow> if user_suspendedAt (snd au) = None then suspendNow now else (\<lambda>v. v))"







lemma firstLoopWrite_keeps [simp]:
  "user_id (firstLoopWrite now pmap au v) = user_id v"
  "user_teamId (firstLoopWrite now pmap au v) = user_teamId v"
  by (simp_all add: firstLoopWrite_def split: option.splits)


lemma updateUser_rows:
  "updateUser i f (db\<lparr>db_users := vs\<rparr>)
     = db\<lparr>db_users := map (\<lambda>v. if user_id v = i then f v else v) vs\<rparr>"
  by (simp add: updateUser_def)




section \<open>The first loop: users that have an authentication\<close>










section \<open>The order of the two loops\<close>








section \<open>Matching by email\<close>

text \<open>
  The email of an entry is handed to the store as the pattern of \<open>iLike\<close>, so an underscore
  in it stands for any character. Here the team has a user with the email \<open>abc@x\<close> and,
  after it in the table, a user with the email \<open>a_c@x\<close>; neither has an authentication.
  The provider returns one user, with the email \<open>a_c@x\<close>.
\<close>

definition abcUser :: User where
  "abcUser = \<lparr>user_id = ''u1'', user_teamId = ''T'', user_email = Some ''abc@x'',
     user_name = ''Abc'', user_avatarUrl = None, user_role = RoleMember,
     user_suspendedAt = None, user_suspendedById = None, user_lastActiveAt = None\<rparr>"

definition underscoreUser :: User where
  "underscoreUser = \<lparr>user_id = ''u2'', user_teamId = ''T'', user_email = Some ''a_c@x'',
     user_name = ''A C'', user_avatarUrl = None, user_role = RoleMember,
     user_suspendedAt = None, user_suspendedById = None, user_lastActiveAt = None\<rparr>"

definition underscoreDirectory :: Directory where
  "underscoreDirectory = emptyDirectory\<lparr>db_users := [abcUser, underscoreUser]\<rparr>"

definition underscoreEntry :: SyncUser where
  "underscoreEntry = \<lparr>providerId = ''g2'', email = ''a_c@x'', name = ''A C'', avatarUrl = None\<rparr>"

text \<open>
  C3. The user \<open>u2\<close> has the email of the entry, character by character. The query by
  email returns the user \<open>u1\<close>, whose email \<open>abc@x\<close> the pattern \<open>a_c@x\<close> matches as well.
  \<open>userSyncer\<close> links the entry to \<open>u1\<close> and, the two emails being different, writes the
  entry's email and name to \<open>u1\<close>. No user is created, but the team now has two users with
  the email \<open>a_c@x\<close>, and the user who had it has no authentication.
\<close>

theorem underscore_in_email_links_another_user:
  "map user_email (db_users underscoreDirectory) = [Some ''abc@x'', Some ''a_c@x'']
   \<and> user_email underscoreUser = Some (email underscoreEntry)
   \<and> userSyncer 0 underscoreDirectory (syncProps [underscoreEntry])
       = (underscoreDirectory
            \<lparr>db_users := [abcUser\<lparr>user_name := ''A C'', user_email := Some ''a_c@x''\<rparr>,
                          underscoreUser],
             db_userAuthentications :=
               [\<lparr>auth_providerId = ''g2'', auth_authenticationProviderId = ''P'',
                 auth_userId = ''u1'', auth_scopes = []\<rparr>]\<rparr>,
          \<lparr>created = 0, updated = 1, suspended = 0, unchanged = 0, reactivated = 0,
           addedToGroup = 0, errors = []\<rparr>)
   \<and> map user_email (db_users (fst (userSyncer 0 underscoreDirectory (syncProps [underscoreEntry]))))
       = [Some ''a_c@x'', Some ''a_c@x'']"
  by code_simp

text \<open>
  A backslash in the email makes the pattern miss the very same email: the team has one
  user, the entry has that user's email, and \<open>userSyncer\<close> creates a second user with it.
\<close>

lemma backslash_in_email_creates_duplicate:
  "userSyncer 0
      (emptyDirectory\<lparr>db_users := [abcUser\<lparr>user_email := Some (''a'' @ [CHR 0x5C] @ ''b@x'')\<rparr>]\<rparr>)
      (syncProps [\<lparr>providerId = ''g1'', email = ''a'' @ [CHR 0x5C] @ ''b@x'', name = ''Abc'',
                   avatarUrl = None\<rparr>])
   = (emptyDirectory
        \<lparr>db_users :=
           [abcUser\<lparr>user_email := Some (''a'' @ [CHR 0x5C] @ ''b@x'')\<rparr>,
            \<lparr>user_id = ''000'', user_teamId = ''T'',
             user_email = Some (''a'' @ [CHR 0x5C] @ ''b@x''), user_name = ''Abc'',
             user_avatarUrl = None, user_role = RoleMember, user_suspendedAt = None,
             user_suspendedById = None, user_lastActiveAt = None\<rparr>],
         db_userAuthentications :=
           [\<lparr>auth_providerId = ''g1'', auth_authenticationProviderId = ''P'',
             auth_userId = ''000'', auth_scopes = []\<rparr>]\<rparr>,
      \<lparr>created = 1, updated = 0, suspended = 0, unchanged = 0, reactivated = 0,
       addedToGroup = 0, errors = []\<rparr>)"
  by code_simp

text \<open>
  A plain email holds none of the characters \<open>%\<close>, \<open>_\<close> and backslash. As a pattern it
  matches exactly the texts that are equal to it up to case, and the query by email returns
  the first user of the team whose email is equal to it up to case.
\<close>

definition plainPattern :: "string \<Rightarrow> bool" where
  "plainPattern p = (CHR ''%'' \<notin> set p \<and> CHR ''_'' \<notin> set p \<and> CHR 0x5C \<notin> set p)"

lemma toLower_code:
  "of_char (toLower c) = (of_char c :: nat)
   \<or> ((97::nat) \<le> of_char (toLower c) \<and> (of_char (toLower c) :: nat) \<le> 122)
   \<or> ((224::nat) \<le> of_char (toLower c) \<and> (of_char (toLower c) :: nat) \<le> 254)"
proof (cases "(65 \<le> (of_char c :: nat) \<and> (of_char c :: nat) \<le> 90)
               \<or> (192 \<le> (of_char c :: nat) \<and> (of_char c :: nat) \<le> 222 \<and> (of_char c :: nat) \<noteq> 215)")
  case False
  then have "toLower c = c" by (auto simp: toLower_def Let_def)
  then show ?thesis by simp
next
  case True
  then have t: "toLower c = char_of ((of_char c :: nat) + 32)" by (simp add: toLower_def Let_def)
  have "(of_char (toLower c) :: nat) = ((of_char c :: nat) + 32) mod 256"
    unfolding t by simp
  also have "\<dots> = (of_char c :: nat) + 32" using True by auto
  finally show ?thesis using True by auto
qed

lemma toLower_special:
  "toLower c = CHR ''%'' \<longleftrightarrow> c = CHR ''%''"
  "toLower c = CHR ''_'' \<longleftrightarrow> c = CHR ''_''"
  "toLower c = CHR 0x5C \<longleftrightarrow> c = CHR 0x5C"
proof -
  have k: "toLower c = d \<longleftrightarrow> c = d"
    if d: "(of_char d :: nat) < 65 \<or> (90 < (of_char d :: nat) \<and> (of_char d :: nat) < 97)" for d
  proof
    assume a: "toLower c = d"
    from toLower_code[of c] a d have "(of_char d :: nat) = of_char c" by auto
    then show "c = d" by simp
  next
    assume "c = d"
    with d show "toLower c = d" by (auto simp: toLower_def Let_def)
  qed
  show "toLower c = CHR ''%'' \<longleftrightarrow> c = CHR ''%''" by (rule k) simp
  show "toLower c = CHR ''_'' \<longleftrightarrow> c = CHR ''_''" by (rule k) simp
  show "toLower c = CHR 0x5C \<longleftrightarrow> c = CHR 0x5C" by (rule k) simp
qed

lemma plainPattern_toLowerCase: "plainPattern (toLowerCase p) = plainPattern p"
proof -
  have k: "(d \<in> toLower ` S) = (d \<in> S)" if "\<And>c. toLower c = d \<longleftrightarrow> c = d" for d S
    using that by force
  show ?thesis
    by (simp add: plainPattern_def toLowerCase_def k toLower_special)
qed

lemma like_match_plain:
  "plainPattern p \<Longrightarrow> like_match p t = (if t = p then LikeTrue else LikeFalse)"
proof (induction p arbitrary: t)
  case Nil
  show ?case by simp
next
  case (Cons c p)
  then have p: "plainPattern p" and c: "c \<noteq> CHR ''%''" "c \<noteq> CHR ''_''" "c \<noteq> CHR 0x5C"
    by (auto simp: plainPattern_def)
  show ?case using c Cons.IH[OF p] by (cases t) auto
qed

lemma iLike_plain:
  "plainPattern p \<Longrightarrow>
     iLike p e = (if toLowerCase e = toLowerCase p then LikeTrue else LikeFalse)"
  by (simp add: iLike_def like_match_plain plainPattern_toLowerCase)

lemma findOneByEmail_plain:
  "plainPattern p \<Longrightarrow>
     findOneByEmail tid p vs
       = Inr (find (\<lambda>u. user_teamId u = tid
                       \<and> map_option toLowerCase (user_email u) = Some (toLowerCase p)) vs)"
  by (induction vs) (auto simp: iLike_plain split: option.splits)

text \<open>
  So for an entry with a plain email that some user of the team has, up to case, the turn of
  the second loop links the entry to a user with that email and creates none; the write to
  the linked user leaves the stored email as it is.
\<close>

lemma settle_keeps_email:
  "map_option toLowerCase (user_email h) = Some (toLowerCase (email p)) \<Longrightarrow>
     user_email (settle h p v) = user_email v"
  by (simp add: settle_def computeUpdates_def applyUpdates_def)

lemma plain_email_links_same_email:
  assumes "providerId p \<notin> processed" "truthy (email p)" "plainPattern (email p)"
    and "v \<in> set (db_users db)" "user_teamId v = tid"
    and "map_option toLowerCase (user_email v) = Some (toLowerCase (email p))"
  shows "\<exists>h. h \<in> set (db_users db) \<and> user_teamId h = tid
           \<and> map_option toLowerCase (user_email h) = Some (toLowerCase (email p))
           \<and> processProviderUser tid aid team dg processed p (db, r)
               = (updateUser (user_id h) (settle h p)
                    (createAuthentication (newAuthentication (providerId p) aid (user_id h)) db),
                  countLink h p r)
           \<and> (\<forall>w. user_email (settle h p w) = user_email w)"
proof -
  let ?P = "\<lambda>u. user_teamId u = tid
                       \<and> map_option toLowerCase (user_email u) = Some (toLowerCase (email p))"
  have f: "findUserByEmail tid (email p) db = Inr (find ?P (db_users db))"
    by (simp add: findUserByEmail_def findOneByEmail_plain[OF assms(3)])
  from find_hit[of v "db_users db" ?P] assms(4-6)
  obtain h where h: "find ?P (db_users db) = Some h" by auto
  from find_Some_mem[OF h] have hp: "h \<in> set (db_users db)" "?P h" by simp_all
  have "processProviderUser tid aid team dg processed p (db, r)
               = (updateUser (user_id h) (settle h p)
                    (createAuthentication (newAuthentication (providerId p) aid (user_id h)) db),
                  countLink h p r)"
    by (rule processProviderUser_link[OF assms(1,2)]) (simp only: f h)
  moreover have "\<forall>w. user_email (settle h p w) = user_email w"
    using hp(2) by (simp add: settle_keeps_email)
  ultimately show ?thesis using hp by blast
qed

text \<open>
  The stored email stays as it is also for a user that has an authentication: the two
  emails of the linked user below are equal up to case and differ as strings, but after
  the call the stored email is the old one. \<open>updateUserIfNeeded\<close> replaces the email only
  when it differs up to case.
\<close>

lemma case_change_keeps_stored_email:
  "toLowerCase ''test@example.com'' = toLowerCase ''TEST@EXAMPLE.COM''
   \<and> ''test@example.com'' \<noteq> ''TEST@EXAMPLE.COM''
   \<and> map user_email (db_users (fst (userSyncer 0 linkedDirectory (syncProps [upperCaseEntry]))))
        = [Some ''test@example.com'']"
  by code_simp


section \<open>Running the synchronization twice\<close>

text \<open>
  The user of the example is linked with the provider id \<open>g1\<close>. The account is made anew at
  the provider: every snapshot from now on has the user's email under the new id \<open>g9\<close>, and
  no entry with the id \<open>g1\<close>. \<open>afterRuns n\<close> is the directory after \<open>n\<close> calls of \<open>userSyncer\<close>
  with this snapshot, the call number \<open>n\<close> at the time \<open>n\<close>.
\<close>

definition recreatedAccount :: SyncUser where
  "recreatedAccount = \<lparr>providerId = ''g9'', email = ''test@example.com'', name = ''Test User'',
     avatarUrl = None\<rparr>"

primrec afterRuns :: "nat \<Rightarrow> Directory" where
  "afterRuns 0 = linkedDirectory"
| "afterRuns (Suc n) = fst (userSyncer (Suc n) (afterRuns n) (syncProps [recreatedAccount]))"

text \<open>
  C2. The first call suspends the user for the row \<open>g1\<close>, then finds it by email, links it
  with \<open>g9\<close> and reactivates it: the user is active and has two authentication rows of the
  provider. The second call, with the same snapshot, loads both rows with the active user.
  For \<open>g1\<close> it suspends the user; for \<open>g9\<close> it sees the user object loaded before, which is
  not suspended, and leaves it. So the second call reports \<open>suspended\<close> as 1, not 0, and
  changes the directory: the user, who is in the snapshot, ends suspended. The third call
  reactivates the user and the fourth suspends it again.
\<close>

theorem recreated_account_is_suspended_every_second_run:
  "snd (userSyncer 1 (afterRuns 0) (syncProps [recreatedAccount]))
     = \<lparr>created = 0, updated = 0, suspended = 1, unchanged = 1, reactivated = 1,
        addedToGroup = 0, errors = []\<rparr>
   \<and> map auth_providerId (db_userAuthentications (afterRuns 1)) = [''g1'', ''g9'']
   \<and> map auth_userId (db_userAuthentications (afterRuns 1)) = [''u1'', ''u1'']
   \<and> snd (userSyncer 2 (afterRuns 1) (syncProps [recreatedAccount]))
     = \<lparr>created = 0, updated = 0, suspended = 1, unchanged = 1, reactivated = 0,
        addedToGroup = 0, errors = []\<rparr>
   \<and> afterRuns 2 \<noteq> afterRuns 1
   \<and> map user_suspendedAt (db_users (afterRuns 1)) = [None]
   \<and> map user_suspendedAt (db_users (afterRuns 2)) = [Some 2]
   \<and> map user_suspendedAt (db_users (afterRuns 3)) = [None]
   \<and> map user_suspendedAt (db_users (afterRuns 4)) = [Some 4]"
  by code_simp

text \<open>
  Where no entry meets a user that is linked under another provider id, the second call
  does what is expected of it. In this directory the first call updates a user, suspends
  one, reactivates one, links an invited one and creates one; the second call changes
  nothing and counts the five linked users as unchanged.
\<close>

definition someUser :: "string \<Rightarrow> string \<Rightarrow> string \<Rightarrow> nat option \<Rightarrow> User" where
  "someUser i e n s = \<lparr>user_id = i, user_teamId = ''T'', user_email = Some e, user_name = n,
     user_avatarUrl = None, user_role = RoleMember, user_suspendedAt = s,
     user_suspendedById = None, user_lastActiveAt = None\<rparr>"

definition mixedDirectory :: Directory where
  "mixedDirectory = emptyDirectory
     \<lparr>db_users := [someUser ''u1'' ''a@x'' ''Old'' None, someUser ''u2'' ''b@x'' ''B'' None,
                   someUser ''u3'' ''c@x'' ''C'' (Some 3), someUser ''u4'' ''d@x'' ''D'' None],
      db_userAuthentications :=
        [newAuthentication ''g1'' ''P'' ''u1'', newAuthentication ''g2'' ''P'' ''u2'',
         newAuthentication ''g3'' ''P'' ''u3'']\<rparr>"

definition mixedSnapshot :: "SyncUser list" where
  "mixedSnapshot =
     [\<lparr>providerId = ''g1'', email = ''a@x'', name = ''New'', avatarUrl = None\<rparr>,
      \<lparr>providerId = ''g3'', email = ''c@x'', name = ''C'', avatarUrl = None\<rparr>,
      \<lparr>providerId = ''g4'', email = ''D@X'', name = ''D'', avatarUrl = None\<rparr>,
      \<lparr>providerId = ''g5'', email = ''e@x'', name = ''E'', avatarUrl = None\<rparr>]"

lemma second_run_of_mixed_directory:
  "snd (userSyncer 0 mixedDirectory (syncProps mixedSnapshot))
       = \<lparr>created = 1, updated = 1, suspended = 1, unchanged = 3, reactivated = 1,
          addedToGroup = 0, errors = []\<rparr>
   \<and> userSyncer 1 (fst (userSyncer 0 mixedDirectory (syncProps mixedSnapshot)))
        (syncProps mixedSnapshot)
       = (fst (userSyncer 0 mixedDirectory (syncProps mixedSnapshot)),
          \<lparr>created = 0, updated = 0, suspended = 0, unchanged = 5, reactivated = 0,
           addedToGroup = 0, errors = []\<rparr>)
   \<and> length (findExistingAuths ''P'' ''T''
        (fst (userSyncer 0 mixedDirectory (syncProps mixedSnapshot)))) = 5"
  by code_simp

text \<open>
  For the empty snapshot both calls return at the safety check, so the second call reports
  \<open>unchanged\<close> as 0, while one user is linked to the provider.
\<close>

lemma empty_snapshot_counts_nobody:
  "unchanged (snd (userSyncer 1 (fst (userSyncer 0 linkedDirectory (syncProps []))) (syncProps []))) = 0
   \<and> length (findExistingAuths ''P'' ''T'' (fst (userSyncer 0 linkedDirectory (syncProps [])))) = 1"
  by code_simp


section \<open>Uniqueness of authentications\<close>

text \<open>The pair of provider and provider id, for every authentication row.\<close>

definition authKeys :: "Directory \<Rightarrow> (string \<times> string) list" where
  "authKeys db = map (\<lambda>a. (auth_authenticationProviderId a, auth_providerId a))
     (db_userAuthentications db)"

definition aliceEntry :: SyncUser where
  "aliceEntry = \<lparr>providerId = ''g1'', email = ''a@x'', name = ''A'', avatarUrl = None\<rparr>"

definition sameIdEntry :: SyncUser where
  "sameIdEntry = \<lparr>providerId = ''g1'', email = ''b@x'', name = ''B'', avatarUrl = None\<rparr>"

text \<open>
  The row of the team that has a user id; the provider ids that have a row joined to a
  user of the team; and whether the second loop goes on to the query by email for an
  entry.
\<close>

definition teamRow :: "string \<Rightarrow> Directory \<Rightarrow> string \<Rightarrow> User option" where
  "teamRow tid db i = find (\<lambda>u. user_id u = i \<and> user_teamId u = tid) (db_users db)"

definition visiblePids :: "string \<Rightarrow> string \<Rightarrow> Directory \<Rightarrow> string set" where
  "visiblePids aid tid db = auth_providerId ` fst ` set (findExistingAuths aid tid db)"

definition pendingEntry :: "string set \<Rightarrow> SyncUser \<Rightarrow> bool" where
  "pendingEntry processed t = (providerId t \<notin> processed \<and> truthy (email t))"

lemma findExistingAuths_iff:
  "(a, u) \<in> set (findExistingAuths aid tid db) \<longleftrightarrow>
     a \<in> set (db_userAuthentications db) \<and> auth_authenticationProviderId a = aid
     \<and> teamRow tid db (auth_userId a) = Some u"
  by (auto simp: findExistingAuths_def teamRow_def split: option.splits)

lemma visiblePids_iff:
  "p \<in> visiblePids aid tid db \<longleftrightarrow>
     (\<exists>a \<in> set (db_userAuthentications db). auth_authenticationProviderId a = aid
        \<and> auth_providerId a = p \<and> teamRow tid db (auth_userId a) \<noteq> None)"
proof
  assume "p \<in> visiblePids aid tid db"
  then obtain a u where "(a, u) \<in> set (findExistingAuths aid tid db)" "auth_providerId a = p"
    by (auto simp: visiblePids_def)
  then show "\<exists>a \<in> set (db_userAuthentications db). auth_authenticationProviderId a = aid
        \<and> auth_providerId a = p \<and> teamRow tid db (auth_userId a) \<noteq> None"
    by (auto simp: findExistingAuths_iff)
next
  assume "\<exists>a \<in> set (db_userAuthentications db). auth_authenticationProviderId a = aid
        \<and> auth_providerId a = p \<and> teamRow tid db (auth_userId a) \<noteq> None"
  then obtain a u where "a \<in> set (db_userAuthentications db)" "auth_authenticationProviderId a = aid"
    "auth_providerId a = p" "teamRow tid db (auth_userId a) = Some u" by auto
  then have "(a, u) \<in> set (findExistingAuths aid tid db)" "auth_providerId (fst (a, u)) = p"
    by (simp_all add: findExistingAuths_iff)
  then show "p \<in> visiblePids aid tid db" unfolding visiblePids_def by (metis image_eqI)
qed

text \<open>
  With distinct provider ids in the snapshot, and every row of the provider joined to a
  user of the team, the call keeps the pairs distinct: the second loop adds at most one row
  for each entry that is not marked and has an email, and no other.
\<close>

lemma processProviderUser_authKeys:
  "authKeys (fst (processProviderUser tid aid team dg processed t (db, r))) = authKeys db
   \<or> (pendingEntry processed t
      \<and> authKeys (fst (processProviderUser tid aid team dg processed t (db, r)))
          = authKeys db @ [(aid, providerId t)])"
proof (cases "providerId t \<in> processed")
  case True
  then show ?thesis by (simp add: processProviderUser_processed)
next
  case np: False
  show ?thesis
  proof (cases "truthy (email t)")
    case False
    then show ?thesis using np by (simp add: processProviderUser_no_email)
  next
    case em: True
    show ?thesis
    proof (cases "findUserByEmail tid (email t) db")
      case (Inl message)
      then show ?thesis using np em by (simp add: processProviderUser_failed)
    next
      case (Inr found)
      show ?thesis
      proof (cases found)
        case None
        then show ?thesis using np em Inr
          by (cases dg)
             (simp_all add: processProviderUser_create Let_def pendingEntry_def authKeys_def
                newAuthentication_def createAuthentication_def createUser_def createGroupUser_def)
      next
        case (Some h)
        then show ?thesis using np em Inr
          by (simp add: processProviderUser_link pendingEntry_def authKeys_def
                newAuthentication_def createAuthentication_def)
      qed
    qed
  qed
qed

lemma processProviderUsers_authKeys:
  "\<exists>ts'. set ts' \<subseteq> set (filter (pendingEntry processed) ts)
     \<and> (distinct (map providerId ts) \<longrightarrow> distinct (map providerId ts'))
     \<and> authKeys (fst (processProviderUsers tid aid team dg processed ts (db, r)))
         = authKeys db @ map (\<lambda>t. (aid, providerId t)) ts'"
proof (induction ts arbitrary: db r)
  case Nil
  show ?case by (simp add: processProviderUsers_def)
next
  case (Cons t ts)
  obtain db1 r1 where s: "processProviderUser tid aid team dg processed t (db, r) = (db1, r1)"
    by (metis surj_pair)
  from Cons.IH[of db1 r1] obtain ts' where
    sub: "set ts' \<subseteq> set (filter (pendingEntry processed) ts)"
    and dis: "distinct (map providerId ts) \<longrightarrow> distinct (map providerId ts')"
    and k: "authKeys (fst (processProviderUsers tid aid team dg processed ts (db1, r1)))
              = authKeys db1 @ map (\<lambda>t. (aid, providerId t)) ts'"
    by blast
  have run: "processProviderUsers tid aid team dg processed (t # ts) (db, r)
               = processProviderUsers tid aid team dg processed ts (db1, r1)"
    by (simp add: processProviderUsers_def s)
  from processProviderUser_authKeys[of tid aid team dg processed t db r] s
  consider "authKeys db1 = authKeys db"
    | "pendingEntry processed t" "authKeys db1 = authKeys db @ [(aid, providerId t)]"
    by auto
  then show ?case
  proof cases
    case 1
    have "set ts' \<subseteq> set (filter (pendingEntry processed) (t # ts))"
      using sub by auto
    moreover have "distinct (map providerId (t # ts)) \<longrightarrow> distinct (map providerId ts')"
      using dis by simp
    ultimately show ?thesis using k 1 unfolding run by metis
  next
    case 2
    have "set (t # ts') \<subseteq> set (filter (pendingEntry processed) (t # ts))"
      using sub 2(1) by auto
    moreover have "distinct (map providerId (t # ts)) \<longrightarrow> distinct (map providerId (t # ts'))"
      using dis sub by auto
    moreover have "authKeys (fst (processProviderUsers tid aid team dg processed ts (db1, r1)))
              = authKeys db @ map (\<lambda>t. (aid, providerId t)) (t # ts')"
      using k 2(2) by simp
    ultimately show ?thesis unfolding run by metis
  qed
qed

lemma userSyncer_keeps_authKeys_distinct:
  assumes d: "distinct (authKeys db)"
    and dus: "distinct (map providerId us)"
    and vis: "\<forall>a \<in> set (db_userAuthentications db).
                auth_authenticationProviderId a = aid \<longrightarrow> teamRow tid db (auth_userId a) \<noteq> None"
  shows "distinct (authKeys (fst (userSyncer now db
            \<lparr>teamId = tid, authenticationProviderId = aid, users = us,
             defaultGroupId = gid, defaultGroupName = gname\<rparr>)))"
proof -
  let ?props = "\<lparr>teamId = tid, authenticationProviderId = aid, users = us,
             defaultGroupId = gid, defaultGroupName = gname\<rparr>"
  let ?L = "findExistingAuths aid tid db"
  let ?P = "visiblePids aid tid db"
  have goal: "distinct (authKeys (fst (processProviderUsers tid aid team dg pr us (db1, r1))))"
    if p1: "processExistingAuths now (providerUsersMap us) ?L (db, emptyResult, {}) = (db1, r1, pr)"
    for team dg db1 r1 pr
  proof -
    have pr: "pr = ?P"
      using processExistingAuths_processed[of now "providerUsersMap us" ?L "(db, emptyResult, {})"] p1
      by (simp add: visiblePids_def)
    have a1: "authKeys db1 = authKeys db"
      using processExistingAuths_auths[of now "providerUsersMap us" ?L "(db, emptyResult, {})"] p1
      by (simp add: authKeys_def)
    from processProviderUsers_authKeys[of ?P us tid aid team dg db1 r1]
    obtain ts' where sub: "set ts' \<subseteq> set (filter (pendingEntry ?P) us)"
      and dis: "distinct (map providerId us) \<longrightarrow> distinct (map providerId ts')"
      and k: "authKeys (fst (processProviderUsers tid aid team dg ?P us (db1, r1)))
                = authKeys db1 @ map (\<lambda>t. (aid, providerId t)) ts'"
      by blast
    let ?new = "map (\<lambda>t. (aid, providerId t)) ts'"
    have dn: "distinct ?new"
    proof -
      from dis dus have "distinct (map providerId ts')" by simp
      then have "distinct (map (Pair aid) (map providerId ts'))"
        by (simp add: distinct_map inj_on_def)
      then show ?thesis by (simp add: comp_def)
    qed
    have pend: "pendingEntry ?P t" if "t \<in> set ts'" for t
      using sub that by auto
    have disj: "set (authKeys db) \<inter> set ?new = {}"
    proof (rule ccontr)
      assume "set (authKeys db) \<inter> set ?new \<noteq> {}"
      then obtain a t where a: "a \<in> set (db_userAuthentications db)"
        "auth_authenticationProviderId a = aid" "auth_providerId a = providerId t"
        and t: "t \<in> set ts'"
        by (auto simp: authKeys_def)
      from vis a have "teamRow tid db (auth_userId a) \<noteq> None" by blast
      with a have "providerId t \<in> ?P" unfolding visiblePids_iff by blast
      with pend[OF t] show False by (simp add: pendingEntry_def)
    qed
    show ?thesis
      unfolding pr k a1 using d dn disj by simp
  qed
  show ?thesis
  proof (cases "us = []")
    case True
    then show ?thesis using d by (simp add: userSyncer_def)
  next
    case ne: False
    show ?thesis
    proof (cases "findTeam tid db")
      case None
      then show ?thesis using d ne by (simp add: userSyncer_def)
    next
      case team: (Some team)
      show ?thesis
      proof (cases "findAuthProvider aid db")
        case None
        then show ?thesis using d ne team by (simp add: userSyncer_def)
      next
        case (Some ap)
        obtain db1 r1 pr where
          p1: "processExistingAuths now (providerUsersMap us) ?L (db, emptyResult, {}) = (db1, r1, pr)"
          by (metis prod_cases3)
        from goal[OF p1] show ?thesis using ne team Some p1
          by (simp add: userSyncer_def Let_def)
      qed
    qed
  qed
qed

text \<open>
  C6. The snapshot has two entries with the provider id \<open>g1\<close> and different emails, and the
  directory has no users. The second loop does not mark the provider ids it handles, so
  it creates a user and an authentication for each entry. The call reports no error, and
  two authentication rows, of two users, share the pair \<open>(P, g1)\<close>.
\<close>

theorem repeated_providerId_duplicates_authentication:
  "distinct (authKeys emptyDirectory)
   \<and> snd (userSyncer 0 emptyDirectory (syncProps [aliceEntry, sameIdEntry]))
       = \<lparr>created = 2, updated = 0, suspended = 0, unchanged = 0, reactivated = 0,
          addedToGroup = 0, errors = []\<rparr>
   \<and> authKeys (fst (userSyncer 0 emptyDirectory (syncProps [aliceEntry, sameIdEntry])))
        = [(''P'', ''g1''), (''P'', ''g1'')]
   \<and> distinct (map auth_userId (db_userAuthentications
         (fst (userSyncer 0 emptyDirectory (syncProps [aliceEntry, sameIdEntry])))))"
  by code_simp

text \<open>
  When the provider returns the same user twice, the first entry creates the user and the
  second finds it by email and links it once more.
\<close>

lemma repeated_entry_links_twice:
  "snd (userSyncer 0 emptyDirectory (syncProps [aliceEntry, aliceEntry]))
       = \<lparr>created = 1, updated = 0, suspended = 0, unchanged = 2, reactivated = 0,
          addedToGroup = 0, errors = []\<rparr>
   \<and> authKeys (fst (userSyncer 0 emptyDirectory (syncProps [aliceEntry, aliceEntry])))
        = [(''P'', ''g1''), (''P'', ''g1'')]"
  by code_simp


section \<open>The scenarios of the repository's tests\<close>

text \<open>
  The tests of \<open>userSyncer\<close>, run on the model: the counters and the rows that each test
  expects are the ones the model computes.
\<close>

lemma test_creates_new_users:
  "userSyncer 0 emptyDirectory
     (syncProps [\<lparr>providerId = ''g1'', email = ''newuser1@example.com'', name = ''New User 1'',
                  avatarUrl = None\<rparr>,
                 \<lparr>providerId = ''g2'', email = ''newuser2@example.com'', name = ''New User 2'',
                  avatarUrl = None\<rparr>])
   = (emptyDirectory
        \<lparr>db_users :=
           [\<lparr>user_id = ''0'', user_teamId = ''T'', user_email = Some ''newuser1@example.com'',
             user_name = ''New User 1'', user_avatarUrl = None, user_role = RoleMember,
             user_suspendedAt = None, user_suspendedById = None, user_lastActiveAt = None\<rparr>,
            \<lparr>user_id = ''00'', user_teamId = ''T'', user_email = Some ''newuser2@example.com'',
             user_name = ''New User 2'', user_avatarUrl = None, user_role = RoleMember,
             user_suspendedAt = None, user_suspendedById = None, user_lastActiveAt = None\<rparr>],
         db_userAuthentications :=
           [newAuthentication ''g1'' ''P'' ''0'', newAuthentication ''g2'' ''P'' ''00'']\<rparr>,
      \<lparr>created = 2, updated = 0, suspended = 0, unchanged = 0, reactivated = 0,
       addedToGroup = 0, errors = []\<rparr>)"
  by code_simp

lemma test_updates_changed_details:
  "userSyncer 0 linkedDirectory
     (syncProps [\<lparr>providerId = ''g1'', email = ''test@example.com'', name = ''Updated Name'',
                  avatarUrl = None\<rparr>])
   = (linkedDirectory\<lparr>db_users := [invitedUser\<lparr>user_name := ''Updated Name''\<rparr>]\<rparr>,
      \<lparr>created = 0, updated = 1, suspended = 0, unchanged = 0, reactivated = 0,
       addedToGroup = 0, errors = []\<rparr>)"
  by code_simp

lemma test_unchanged_details:
  "userSyncer 0 linkedDirectory
     (syncProps [\<lparr>providerId = ''g1'', email = ''test@example.com'', name = ''Test User'',
                  avatarUrl = None\<rparr>])
   = (linkedDirectory,
      \<lparr>created = 0, updated = 0, suspended = 0, unchanged = 1, reactivated = 0,
       addedToGroup = 0, errors = []\<rparr>)"
  by code_simp

lemma test_suspends_users_not_in_list:
  "userSyncer 9 linkedDirectory
     (syncProps [\<lparr>providerId = ''g2'', email = ''otheruser@example.com'', name = ''Other User'',
                  avatarUrl = None\<rparr>])
   = (linkedDirectory
        \<lparr>db_users :=
           [invitedUser\<lparr>user_suspendedAt := Some 9\<rparr>,
            \<lparr>user_id = ''000'', user_teamId = ''T'', user_email = Some ''otheruser@example.com'',
             user_name = ''Other User'', user_avatarUrl = None, user_role = RoleMember,
             user_suspendedAt = None, user_suspendedById = None, user_lastActiveAt = None\<rparr>],
         db_userAuthentications :=
           [linkedAuthentication, newAuthentication ''g2'' ''P'' ''000'']\<rparr>,
      \<lparr>created = 1, updated = 0, suspended = 1, unchanged = 0, reactivated = 0,
       addedToGroup = 0, errors = []\<rparr>)"
  by code_simp

lemma test_reactivates_suspended_users:
  "userSyncer 9 (linkedDirectory\<lparr>db_users := [invitedUser\<lparr>user_suspendedAt := Some 3\<rparr>]\<rparr>)
     (syncProps [\<lparr>providerId = ''g1'', email = ''test@example.com'', name = ''Test User'',
                  avatarUrl = None\<rparr>])
   = (linkedDirectory,
      \<lparr>created = 0, updated = 0, suspended = 0, unchanged = 1, reactivated = 1,
       addedToGroup = 0, errors = []\<rparr>)"
  by code_simp

lemma test_links_invited_user:
  "userSyncer 0 invitedDirectory
     (syncProps [\<lparr>providerId = ''g1'', email = ''test@example.com'',
                  name = ''Invited User Updated'', avatarUrl = None\<rparr>])
   = (invitedDirectory
        \<lparr>db_users := [invitedUser\<lparr>user_name := ''Invited User Updated''\<rparr>],
         db_userAuthentications := [linkedAuthentication]\<rparr>,
      \<lparr>created = 0, updated = 1, suspended = 0, unchanged = 0, reactivated = 0,
       addedToGroup = 0, errors = []\<rparr>)"
  by code_simp

lemma test_skips_users_without_email:
  "snd (userSyncer 0 emptyDirectory
     (syncProps [\<lparr>providerId = ''g1'', email = '''', name = ''No Email User'', avatarUrl = None\<rparr>,
                 \<lparr>providerId = ''g2'', email = ''valid@example.com'', name = ''Valid User'',
                  avatarUrl = None\<rparr>]))
   = \<lparr>created = 1, updated = 0, suspended = 0, unchanged = 0, reactivated = 0,
      addedToGroup = 0, errors = [''Skipping user g1: no email address'']\<rparr>"
  by code_simp

lemma test_team_not_found:
  "userSyncer 0 emptyDirectory
     \<lparr>teamId = ''X'', authenticationProviderId = ''P'', users = [aliceEntry],
      defaultGroupId = None, defaultGroupName = None\<rparr>
   = (emptyDirectory, emptyResult\<lparr>errors := [''Team X not found'']\<rparr>)"
  by code_simp

lemma test_provider_not_found:
  "userSyncer 0 emptyDirectory
     \<lparr>teamId = ''T'', authenticationProviderId = ''X'', users = [aliceEntry],
      defaultGroupId = None, defaultGroupName = None\<rparr>
   = (emptyDirectory, emptyResult\<lparr>errors := [''Authentication provider X not found'']\<rparr>)"
  by code_simp

text \<open>With a default group, a created user becomes a member of it; a linked user does not.\<close>

lemma default_group_on_create:
  "db_groupUsers (fst (userSyncer 0 invitedDirectory
     \<lparr>teamId = ''T'', authenticationProviderId = ''P'', users = [upperCaseEntry, aliceEntry],
      defaultGroupId = Some ''G'', defaultGroupName = None\<rparr>))
     = [\<lparr>gu_userId = ''000'', gu_groupId = ''G'', gu_permission = PermissionMember\<rparr>]
   \<and> addedToGroup (snd (userSyncer 0 invitedDirectory
     \<lparr>teamId = ''T'', authenticationProviderId = ''P'', users = [upperCaseEntry, aliceEntry],
      defaultGroupId = Some ''G'', defaultGroupName = None\<rparr>)) = 1"
  by code_simp

end
